theory Spec2Isabelle
  imports Main
begin

section \<open>Problem types and their resolver (\<^verbatim>\<open>evalml/problem_types/utils.py\<close>)\<close>

text \<open>
  Python strings are modelled as \<^typ>\<open>string\<close>. \<^verbatim>\<open>str.upper()\<close> is modelled on the
  ASCII range: the letters \<^verbatim>\<open>a\<close> to \<^verbatim>\<open>z\<close> (codes 97 to 122) move down by 32, every
  other character is kept.
\<close>

definition upper_char :: "char \<Rightarrow> char" where
  "upper_char c =
     (if (97::nat) \<le> of_char c \<and> of_char c \<le> (122::nat)
      then char_of (of_char c - (32::nat)) else c)"

definition upper :: "string \<Rightarrow> string" where
  "upper s = map upper_char s"

text \<open>
  Modelled from the spec: the enumeration \<^verbatim>\<open>ProblemTypes\<close> is declared in
  \<^verbatim>\<open>evalml/problem_types/problem_types.py\<close>, which is not part of the sources at hand.
  The spec names its members: binary, multiclass, regression. \<^verbatim>\<open>ProblemTypes[name]\<close>
  looks a member up by its (upper-case) name and raises \<^verbatim>\<open>KeyError\<close> for any other
  name; the lookup is the partial function \<open>ProblemTypes_getitem\<close>.
\<close>

datatype ProblemTypes = BINARY | MULTICLASS | REGRESSION

definition ProblemTypes_getitem :: "string \<Rightarrow> ProblemTypes option" where
  "ProblemTypes_getitem name =
     (if name = ''BINARY'' then Some BINARY
      else if name = ''MULTICLASS'' then Some MULTICLASS
      else if name = ''REGRESSION'' then Some REGRESSION
      else None)"

text \<open>
  The values \<^verbatim>\<open>handle_problem_types\<close> can be called with: a member of the enumeration,
  a string, an iterable (given by the sequence of its elements), or any other object.
  The elements of an iterable are values of the same kind.
\<close>

datatype 'p pyval =
    PT 'p
  | PyStr string
  | PySeq "'p pyval list"
  | PyOther

text \<open>
  What the function returns: either the enumeration member itself (line 14) or the list
  \<^verbatim>\<open>types\<close> (line 27).
\<close>

datatype 'p resolved = Member 'p | TypeList "'p list"

text \<open>
  Exceptions are values. Each constructor is a Python exception class and carries the
  message; \<open>Raised\<close> stands for whatever exception a collaborator outside this
  repository (a pipeline, pandas, woodwork, the component graph) raises.
\<close>

datatype error =
    KeyError string
  | TypeError string
  | ValueError string
  | IndexError string
  | Raised string

text \<open>
  \<^verbatim>\<open>KeyError\<close> and \<^verbatim>\<open>IndexError\<close> are the subclasses of \<^verbatim>\<open>LookupError\<close>.
\<close>

fun is_LookupError :: "error \<Rightarrow> bool" where
  "is_LookupError (KeyError _) = True"
| "is_LookupError (IndexError _) = True"
| "is_LookupError _ = False"

text \<open>The message of line 25: \<^verbatim>\<open>'Problem type \'{}\' does not exist'.format(problem_type)\<close>.\<close>

definition does_not_exist_msg :: "string \<Rightarrow> string" where
  "does_not_exist_msg problem_type =
     ''Problem type '' @ [CHR 0x27] @ problem_type @ [CHR 0x27] @ '' does not exist''"

text \<open>
  The loop of lines 17 to 26 with its accumulator \<^verbatim>\<open>types\<close>. The enumeration is a
  parameter: \<open>members name\<close> is \<^verbatim>\<open>ProblemTypes[name]\<close>, \<open>None\<close> where Python raises
  \<^verbatim>\<open>KeyError\<close>. The \<^verbatim>\<open>if\<close>/\<^verbatim>\<open>elif\<close> chain has no \<^verbatim>\<open>else\<close>: any other element falls
  through to the next iteration.
\<close>

fun handle_loop ::
  "(string \<Rightarrow> 'p option) \<Rightarrow> 'p pyval list \<Rightarrow> 'p list \<Rightarrow> error + 'p list" where
  "handle_loop members [] types = Inr types"
| "handle_loop members (PT p # rest) types = handle_loop members rest (types @ [p])"
| "handle_loop members (PyStr problem_type # rest) types =
     (case members (upper problem_type) of
        None \<Rightarrow> Inl (KeyError (does_not_exist_msg problem_type))
      | Some tp \<Rightarrow> handle_loop members rest (types @ [tp]))"
| "handle_loop members (PySeq v # rest) types = handle_loop members rest types"
| "handle_loop members (PyOther # rest) types = handle_loop members rest types"

fun handle_problem_types ::
  "(string \<Rightarrow> 'p option) \<Rightarrow> 'p pyval \<Rightarrow> error + 'p resolved" where
  "handle_problem_types members (PT p) = Inr (Member p)"
| "handle_problem_types members (PyStr s) =
     map_sum id TypeList (handle_loop members [PyStr s] [])"
| "handle_problem_types members (PySeq problem_types) =
     map_sum id TypeList (handle_loop members problem_types [])"
| "handle_problem_types members PyOther =
     Inl (TypeError ''object is not iterable'')"

text \<open>The elements the loop does something with: enumeration members and strings.\<close>

fun is_str_or_member :: "'p pyval \<Rightarrow> bool" where
  "is_str_or_member (PT _) = True"
| "is_str_or_member (PyStr _) = True"
| "is_str_or_member (PySeq _) = False"
| "is_str_or_member PyOther = False"

text \<open>What one element contributes to \<^verbatim>\<open>types\<close> when it contributes at all.\<close>

fun resolve_one :: "(string \<Rightarrow> 'p option) \<Rightarrow> 'p pyval \<Rightarrow> 'p option" where
  "resolve_one members (PT p) = Some p"
| "resolve_one members (PyStr s) = members (upper s)"
| "resolve_one members (PySeq _) = None"
| "resolve_one members PyOther = None"

text \<open>
  Two outcomes agree up to the text of the error message: the same returned value, or an
  error of the same class on both sides.
\<close>

fun error_class :: "error \<Rightarrow> nat" where
  "error_class (KeyError _) = 0"
| "error_class (TypeError _) = 1"
| "error_class (ValueError _) = 2"
| "error_class (IndexError _) = 3"
| "error_class (Raised _) = 4"

fun same_outcome :: "error + 'a \<Rightarrow> error + 'a \<Rightarrow> bool" where
  "same_outcome (Inr a) (Inr b) = (a = b)"
| "same_outcome (Inl d) (Inl e) = (error_class d = error_class e)"
| "same_outcome (Inl _) (Inr _) = False"
| "same_outcome (Inr _) (Inl _) = False"

section \<open>Prediction tables and \<^verbatim>\<open>_preds_processor\<close>\<close>

text \<open>
  A column label of a data frame is a Python integer or a string. A data frame is its
  ordered list of columns, each a label with the values of the column; the row index is
  not modelled. Tables that carry woodwork typing information have pairwise distinct
  column labels; the theorems below state this where they need it.
\<close>

datatype label = IntL int | StrL string

type_synonym 'v table = "(label \<times> 'v list) list"

definition columns :: "'v table \<Rightarrow> label list" where
  "columns t = map fst t"

text \<open>\<^verbatim>\<open>len(df)\<close>: the number of rows, the common length of the columns.\<close>

fun len_table :: "'v table \<Rightarrow> nat" where
  "len_table [] = 0"
| "len_table ((c, vs) # rest) = length vs"

text \<open>
  \<^verbatim>\<open>str(i)\<close> for a Python integer: decimal digits, most significant first, with a minus
  sign for a negative number. For a string label \<^verbatim>\<open>str\<close> is the identity.
\<close>

definition digit_char :: "nat \<Rightarrow> char" where
  "digit_char d = char_of (48 + d)"

function str_nat :: "nat \<Rightarrow> string" where
  "str_nat n = (if n < 10 then [digit_char n] else str_nat (n div 10) @ [digit_char (n mod 10)])"
  by pat_completeness auto
termination
  by (relation "measure id") auto

declare str_nat.simps [simp del]

definition str_int :: "int \<Rightarrow> string" where
  "str_int i = (if i < 0 then CHR ''-'' # str_nat (nat (- i)) else str_nat (nat i))"

fun str_label :: "label \<Rightarrow> string" where
  "str_label (IntL i) = str_int i"
| "str_label (StrL s) = s"

text \<open>
  Lines 113 to 115: the dictionary \<^verbatim>\<open>new_columns\<close>, filled in column order, a later
  assignment to the same key replacing the earlier one.
\<close>

fun new_columns_loop :: "(label \<Rightarrow> label option) \<Rightarrow> (nat \<times> label) list \<Rightarrow> (label \<Rightarrow> label option)" where
  "new_columns_loop new_columns [] = new_columns"
| "new_columns_loop new_columns ((i, column) # rest) =
     new_columns_loop (new_columns(column \<mapsto> IntL (int i))) rest"

text \<open>
  \<^verbatim>\<open>rename\<close> with a dictionary: a label that is a key is replaced by its value, any other
  label is kept; the values of the columns and their order stay.
\<close>

definition rename :: "(label \<Rightarrow> label option) \<Rightarrow> 'v table \<Rightarrow> 'v table" where
  "rename mapper t = map (\<lambda>(c, vs). (case mapper c of None \<Rightarrow> c | Some n \<Rightarrow> n, vs)) t"

text \<open>\<^verbatim>\<open>drop(label)\<close>: a new table without the columns that carry the label.\<close>

definition drop_column :: "label \<Rightarrow> 'v table \<Rightarrow> 'v table" where
  "drop_column l t = filter (\<lambda>(c, vs). c \<noteq> l) t"

text \<open>Line 121: the f-string \<^verbatim>\<open>f"Col {str(col)} {pipeline_name}.x"\<close>.\<close>

definition col_name :: "label \<Rightarrow> string \<Rightarrow> label" where
  "col_name col pipeline_name =
     StrL (''Col '' @ str_label col @ '' '' @ pipeline_name @ ''.x'')"

text \<open>
  Objects live in a heap: \<open>cells\<close> maps an address to the object stored there and
  \<open>next_addr\<close> is the first address not yet in use. A prediction result is a data
  frame or some other object.
\<close>

datatype 'v pyobj = DataFrame "'v table" | NotDataFrame

type_synonym addr = nat

record 'v heap =
  cells :: "addr \<Rightarrow> 'v pyobj"
  next_addr :: addr

definition new_object :: "'v pyobj \<Rightarrow> 'v heap \<Rightarrow> addr \<times> 'v heap" where
  "new_object obj h =
     (next_addr h, h\<lparr>cells := (cells h)(next_addr h := obj), next_addr := Suc (next_addr h)\<rparr>)"

text \<open>
  \<^verbatim>\<open>_preds_processor(preds, pipeline_name)\<close>, lines 110 to 123. \<open>preds\<close> is the address
  of the caller's object. The first \<^verbatim>\<open>rename\<close> is \<^verbatim>\<open>inplace=True\<close> and writes the
  renamed table back to that address; \<^verbatim>\<open>drop\<close> and the second \<^verbatim>\<open>rename\<close> build new
  tables, and the last of them is returned together with the heap.
\<close>

definition preds_processor ::
  "'v heap \<Rightarrow> addr \<Rightarrow> string \<Rightarrow> error + ('v table \<times> 'v heap)" where
  "preds_processor h preds pipeline_name =
     (case cells h preds of
        NotDataFrame \<Rightarrow> Inl (ValueError ''Preds must be in the form of a pd.Dataframe'')
      | DataFrame t \<Rightarrow>
          let new_columns = new_columns_loop Map.empty (enumerate 0 (columns t));
              t1 = rename new_columns t;
              h1 = h\<lparr>cells := (cells h)(preds := DataFrame t1)\<rparr>;
              t2 = (if length (columns t1) = 2 then drop_column (columns t1 ! 0) t1 else t1);
              t3 = rename (map_of (map (\<lambda>col. (col, col_name col pipeline_name)) (columns t2))) t2
          in Inr (t3, h1))"

section \<open>The ensemble pipeline (\<^verbatim>\<open>evalml/pipelines/ensemble_classification_pipelines.py\<close>)\<close>

text \<open>
  The label series \<open>y\<close> is a list with one entry per row, \<open>None\<close> for a missing label
  (\<^verbatim>\<open>NaN\<close>); the feature table \<open>X\<close> is the list of its rows. Both are taken as they
  are after \<^verbatim>\<open>infer_feature_types\<close>. \<^verbatim>\<open>y.nunique()\<close> counts the distinct labels and
  leaves missing ones out.
\<close>

definition nunique :: "'l option list \<Rightarrow> nat" where
  "nunique y = length (remdups (filter (\<lambda>v. v \<noteq> None) y))"

text \<open>
  Modelled from the spec: \<^verbatim>\<open>is_binary\<close> and \<^verbatim>\<open>is_multiclass\<close> are imported from
  \<^verbatim>\<open>evalml.problem_types.utils\<close> but not defined in the sources at hand. They tell
  whether the pipeline's problem type is binary, or multiclass.
\<close>

definition is_binary :: "ProblemTypes \<Rightarrow> bool" where
  "is_binary problem_type = (problem_type = BINARY)"

definition is_multiclass :: "ProblemTypes \<Rightarrow> bool" where
  "is_multiclass problem_type = (problem_type = MULTICLASS)"

text \<open>
  \<^verbatim>\<open>.ww.iloc[indices]\<close>: the rows at the given positions, in the given order;
  \<^verbatim>\<open>IndexError\<close> when a position is out of range.
\<close>

definition iloc :: "'a list \<Rightarrow> nat list \<Rightarrow> error + 'a list" where
  "iloc xs indices =
     (if list_all (\<lambda>i. i < length xs) indices then Inr (map (\<lambda>i. xs ! i) indices)
      else Inl (IndexError ''positional indexers are out-of-bounds''))"

text \<open>
  The collaborators of section 6 of the design are parameters. A pipeline is a value of
  an arbitrary type \<open>'p\<close> (its configuration together with its fitted state); \<open>pl_fit\<close>
  returns the pipeline as the call leaves it. A call that can raise returns the
  exception's text on the left.
\<close>

record ('p, 'x, 'l, 'v, 'g) collaborators =
  pl_name :: "'p \<Rightarrow> string"
  pl_clone :: "'p \<Rightarrow> 'p"
  pl_is_fitted :: "'p \<Rightarrow> bool"
  pl_fit :: "'p \<Rightarrow> 'x list \<Rightarrow> 'l option list \<Rightarrow> string + 'p"
  pl_predict_proba :: "'p \<Rightarrow> 'x list \<Rightarrow> string + 'v pyobj"
  make_data_splitter ::
    "'x list \<Rightarrow> 'l option list \<Rightarrow> ProblemTypes \<Rightarrow>
     ('x list \<Rightarrow> 'l option list \<Rightarrow> (nat list \<times> nat list) list)"
  concat_columns :: "'v table list \<Rightarrow> string + 'v table"
  pd_concat :: "'v table list \<Rightarrow> string + 'v table"
  pd_concat_series :: "'l option list list \<Rightarrow> string + 'l option list"
  loc_index :: "'v table \<Rightarrow> 'l option list \<Rightarrow> string + 'v table"
  graph_fit :: "'v table \<Rightarrow> 'l option list \<Rightarrow> string + 'g"
  np_unique :: "'l option list \<Rightarrow> 'l option list"

definition call :: "string + 'a \<Rightarrow> error + 'a" where
  "call r = (case r of Inl msg \<Rightarrow> Inl (Raised msg) | Inr v \<Rightarrow> Inr v)"

text \<open>
  The state of an ensemble: its problem type (a class attribute of the binary or the
  multiclass variant), the input pipelines, the precomputed cross-validation data (a
  dictionary from pipeline name to a list of pairs of a feature table and the address of
  a prediction table; the empty dictionary stands for \<^verbatim>\<open>None\<close> as well, both being
  false in a condition), the fitted component graph and \<^verbatim>\<open>_classes_\<close>.
\<close>

record ('p, 'x, 'l, 'g) ensemble =
  problem_type :: ProblemTypes
  input_pipelines :: "'p list"
  cv_valid_data :: "(string \<times> ('x list \<times> addr) list) list"
  component_graph :: "'g option"
  classes_attr :: "'l option list"

text \<open>
  Modelled from the spec: \<^verbatim>\<open>_all_input_pipelines_fitted\<close> and
  \<^verbatim>\<open>_fit_input_pipelines\<close> belong to \<^verbatim>\<open>EnsemblePipelineBase\<close>, which is not part of
  the sources at hand. The first holds when all input pipelines are fitted; the second
  fits every input pipeline directly on the full \<open>(X, y)\<close>.
\<close>

definition all_input_pipelines_fitted ::
  "('p, 'x, 'l, 'v, 'g) collaborators \<Rightarrow> ('p, 'x, 'l, 'g) ensemble \<Rightarrow> bool" where
  "all_input_pipelines_fitted env ens = list_all (pl_is_fitted env) (input_pipelines ens)"

fun fit_input_pipelines ::
  "('p, 'x, 'l, 'v, 'g) collaborators \<Rightarrow> 'p list \<Rightarrow> 'x list \<Rightarrow> 'l option list \<Rightarrow>
   error + 'p list" where
  "fit_input_pipelines env [] X y = Inr []"
| "fit_input_pipelines env (pipeline # rest) X y =
     (case call (pl_fit env pipeline X y) of
        Inl e \<Rightarrow> Inl e
      | Inr fitted \<Rightarrow>
          (case fit_input_pipelines env rest X y of
             Inl e \<Rightarrow> Inl e
           | Inr others \<Rightarrow> Inr (fitted # others)))"

text \<open>
  Lines 158 and 159: the predictions stored for one pipeline name are reshaped one after
  the other.
\<close>

fun process_valid_preds ::
  "'v heap \<Rightarrow> string \<Rightarrow> ('x list \<times> addr) list \<Rightarrow> error + ('v table list \<times> 'v heap)" where
  "process_valid_preds h pipeline_name [] = Inr ([], h)"
| "process_valid_preds h pipeline_name ((X, preds) # rest) =
     (case preds_processor h preds pipeline_name of
        Inl e \<Rightarrow> Inl e
      | Inr (t, h1) \<Rightarrow>
          (case process_valid_preds h1 pipeline_name rest of
             Inl e \<Rightarrow> Inl e
           | Inr (pl_valid_preds, h2) \<Rightarrow> Inr (t # pl_valid_preds, h2)))"

text \<open>Lines 156 to 162: the loop over the items of \<^verbatim>\<open>self.cv_valid_data\<close>.\<close>

fun cv_valid_items ::
  "('p, 'x, 'l, 'v, 'g) collaborators \<Rightarrow> 'v heap \<Rightarrow> (string \<times> ('x list \<times> addr) list) list \<Rightarrow>
   error + ('v table list \<times> 'v heap)" where
  "cv_valid_items env h [] = Inr ([], h)"
| "cv_valid_items env h ((pipeline_name, data) # rest) =
     (case process_valid_preds h pipeline_name data of
        Inl e \<Rightarrow> Inl e
      | Inr (pl_valid_preds, h1) \<Rightarrow>
          (case call (pd_concat env pl_valid_preds) of
             Inl e \<Rightarrow> Inl e
           | Inr pl_all_preds \<Rightarrow>
               (case cv_valid_items env h1 rest of
                  Inl e \<Rightarrow> Inl e
                | Inr (metalearner_X, h2) \<Rightarrow> Inr (pl_all_preds # metalearner_X, h2))))"

text \<open>Lines 156 to 167: the branch that uses the precomputed predictions.\<close>

definition cv_valid_branch ::
  "('p, 'x, 'l, 'v, 'g) collaborators \<Rightarrow> ('p, 'x, 'l, 'g) ensemble \<Rightarrow> 'v heap \<Rightarrow>
   'l option list \<Rightarrow> error + ('v table \<times> 'l option list \<times> 'v heap)" where
  "cv_valid_branch env ens h y =
     (case cv_valid_items env h (cv_valid_data ens) of
        Inl e \<Rightarrow> Inl e
      | Inr (blocks, h1) \<Rightarrow>
          (case call (concat_columns env blocks) of
             Inl e \<Rightarrow> Inl e
           | Inr metalearner_X \<Rightarrow>
               if len_table metalearner_X \<noteq> length y
               then (case call (loc_index env metalearner_X y) of
                       Inl e \<Rightarrow> Inl e
                     | Inr realigned \<Rightarrow> Inr (realigned, y, h1))
               else Inr (metalearner_X, y, h1)))"

text \<open>
  Lines 194 to 197, the inner loop of one fold: each pipeline of \<^verbatim>\<open>pred_pls\<close> is fitted
  on the training rows (the object is changed in place, so the list holds the fitted
  pipeline afterwards), predicts on the validation rows into a new object, and the
  reshaped predictions are appended to \<^verbatim>\<open>fold_X\<close>.
\<close>

fun fit_predict_pipelines ::
  "('p, 'x, 'l, 'v, 'g) collaborators \<Rightarrow> 'x list \<Rightarrow> 'l option list \<Rightarrow> 'x list \<Rightarrow> 'p list \<Rightarrow>
   'v heap \<Rightarrow> error + ('p list \<times> 'v table list \<times> 'v heap)" where
  "fit_predict_pipelines env X_train y_train X_valid [] h = Inr ([], [], h)"
| "fit_predict_pipelines env X_train y_train X_valid (pipeline # rest) h =
     (case call (pl_fit env pipeline X_train y_train) of
        Inl e \<Rightarrow> Inl e
      | Inr fitted \<Rightarrow>
          (case call (pl_predict_proba env fitted X_valid) of
             Inl e \<Rightarrow> Inl e
           | Inr obj \<Rightarrow>
               (case new_object obj h of
                  (pl_preds, h1) \<Rightarrow>
                    (case preds_processor h1 pl_preds (pl_name env fitted) of
                       Inl e \<Rightarrow> Inl e
                     | Inr (t, h2) \<Rightarrow>
                         (case fit_predict_pipelines env X_train y_train X_valid rest h2 of
                            Inl e \<Rightarrow> Inl e
                          | Inr (pls, fold_X, h3) \<Rightarrow> Inr (fitted # pls, t # fold_X, h3))))))"

text \<open>
  Lines 189 to 200, the loop over the folds. \<^verbatim>\<open>pred_pls\<close> is created before the loop
  (lines 184 to 186) and is the same list of objects in every fold, so each fold starts
  from the pipelines as the fold before left them. The result carries the final
  \<^verbatim>\<open>pred_pls\<close>, \<^verbatim>\<open>metalearner_X\<close> and \<^verbatim>\<open>metalearner_y\<close> (one entry per fold).
\<close>

fun cv_loop ::
  "('p, 'x, 'l, 'v, 'g) collaborators \<Rightarrow> 'x list \<Rightarrow> 'l option list \<Rightarrow>
   (nat list \<times> nat list) list \<Rightarrow> 'p list \<Rightarrow> 'v heap \<Rightarrow>
   error + ('p list \<times> 'v table list \<times> 'l option list list \<times> 'v heap)" where
  "cv_loop env X y [] pred_pls h = Inr (pred_pls, [], [], h)"
| "cv_loop env X y ((train, valid) # splits) pred_pls h =
     (case iloc X train of Inl e \<Rightarrow> Inl e | Inr X_train \<Rightarrow>
     (case iloc X valid of Inl e \<Rightarrow> Inl e | Inr X_valid \<Rightarrow>
     (case iloc y train of Inl e \<Rightarrow> Inl e | Inr y_train \<Rightarrow>
     (case iloc y valid of Inl e \<Rightarrow> Inl e | Inr y_valid \<Rightarrow>
     (case fit_predict_pipelines env X_train y_train X_valid pred_pls h of
        Inl e \<Rightarrow> Inl e
      | Inr (pls, fold_X, h1) \<Rightarrow>
          (case call (concat_columns env fold_X) of
             Inl e \<Rightarrow> Inl e
           | Inr block \<Rightarrow>
               (case cv_loop env X y splits pls h1 of
                  Inl e \<Rightarrow> Inl e
                | Inr (final_pls, metalearner_X, metalearner_y, h2) \<Rightarrow>
                    Inr (final_pls, block # metalearner_X, y_valid # metalearner_y, h2))))))))"

text \<open>Lines 170 to 203: the branch that splits the data itself.\<close>

definition cv_split_branch ::
  "('p, 'x, 'l, 'v, 'g) collaborators \<Rightarrow> ('p, 'x, 'l, 'g) ensemble \<Rightarrow> 'v heap \<Rightarrow>
   'x list \<Rightarrow> 'l option list \<Rightarrow> ('x list \<Rightarrow> 'l option list \<Rightarrow> (nat list \<times> nat list) list) option \<Rightarrow>
   error + ('v table \<times> 'l option list \<times> 'v heap)" where
  "cv_split_branch env ens h X y data_splitter =
     (let splitter = (case data_splitter of
                        None \<Rightarrow> make_data_splitter env X y BINARY
                      | Some given \<Rightarrow> given);
          splits = splitter X y;
          pred_pls = map (pl_clone env) (input_pipelines ens)
      in case cv_loop env X y splits pred_pls h of
           Inl e \<Rightarrow> Inl e
         | Inr (final_pls, blocks, label_blocks, h1) \<Rightarrow>
             (case call (pd_concat env blocks) of
                Inl e \<Rightarrow> Inl e
              | Inr metalearner_X \<Rightarrow>
                  (case call (pd_concat_series env label_blocks) of
                     Inl e \<Rightarrow> Inl e
                   | Inr metalearner_y \<Rightarrow> Inr (metalearner_X, metalearner_y, h1))))"

text \<open>
  Lines 149 to 208 of \<^verbatim>\<open>fit\<close>, what follows the validation of the classes: the
  input pipelines are fitted when they are not all fitted or a retrain is forced, the
  training data of the metalearner is built by one of the two branches, the component
  graph is fitted on it and \<^verbatim>\<open>_classes_\<close> is recorded. The result is the ensemble
  (\<^verbatim>\<open>self\<close>) and the heap as the call leaves them.
\<close>

definition fit_after_validation ::
  "('p, 'x, 'l, 'v, 'g) collaborators \<Rightarrow> ('p, 'x, 'l, 'g) ensemble \<Rightarrow> 'v heap \<Rightarrow>
   'x list \<Rightarrow> 'l option list \<Rightarrow> ('x list \<Rightarrow> 'l option list \<Rightarrow> (nat list \<times> nat list) list) option \<Rightarrow>
   bool \<Rightarrow> error + (('p, 'x, 'l, 'g) ensemble \<times> 'v heap)" where
  "fit_after_validation env ens h X y data_splitter force_retrain =
     (case (if \<not> all_input_pipelines_fitted env ens \<or> force_retrain
            then fit_input_pipelines env (input_pipelines ens) X y
            else Inr (input_pipelines ens)) of
        Inl e \<Rightarrow> Inl e
      | Inr pipelines \<Rightarrow>
          (let ens1 = ens\<lparr>input_pipelines := pipelines\<rparr>
           in case (if cv_valid_data ens1 \<noteq> [] \<and> \<not> force_retrain
                    then cv_valid_branch env ens1 h y
                    else cv_split_branch env ens1 h X y data_splitter) of
                Inl e \<Rightarrow> Inl e
              | Inr (metalearner_X, metalearner_y, h1) \<Rightarrow>
                  (case call (graph_fit env metalearner_X metalearner_y) of
                     Inl e \<Rightarrow> Inl e
                   | Inr g \<Rightarrow>
                       Inr (ens1\<lparr>component_graph := Some g,
                                 classes_attr := np_unique env metalearner_y\<rparr>, h1))))"

text \<open>
  \<^verbatim>\<open>fit(X, y, data_splitter, force_retrain)\<close>, lines 125 to 208: the validation of
  lines 142 to 147, then the rest.
\<close>

definition fit ::
  "('p, 'x, 'l, 'v, 'g) collaborators \<Rightarrow> ('p, 'x, 'l, 'g) ensemble \<Rightarrow> 'v heap \<Rightarrow>
   'x list \<Rightarrow> 'l option list \<Rightarrow> ('x list \<Rightarrow> 'l option list \<Rightarrow> (nat list \<times> nat list) list) option \<Rightarrow>
   bool \<Rightarrow> error + (('p, 'x, 'l, 'g) ensemble \<times> 'v heap)" where
  "fit env ens h X y data_splitter force_retrain =
     (if is_binary (problem_type ens) \<and> nunique y \<noteq> 2
      then Inl (ValueError ''Binary pipelines require y to have 2 unique classes!'')
      else if is_multiclass (problem_type ens) \<and> nunique y \<in> set [1, 2]
      then Inl (ValueError ''Multiclass pipelines require y to have 3 or more unique classes!'')
      else fit_after_validation env ens h X y data_splitter force_retrain)"

text \<open>Lines 213 to 216: the loop of \<^verbatim>\<open>transform\<close> over the input pipelines.\<close>

fun transform_loop ::
  "('p, 'x, 'l, 'v, 'g) collaborators \<Rightarrow> 'x list \<Rightarrow> 'p list \<Rightarrow> 'v heap \<Rightarrow>
   error + ('v table list \<times> 'v heap)" where
  "transform_loop env X [] h = Inr ([], h)"
| "transform_loop env X (pipeline # rest) h =
     (case call (pl_predict_proba env pipeline X) of
        Inl e \<Rightarrow> Inl e
      | Inr obj \<Rightarrow>
          (case new_object obj h of
             (pl_preds, h1) \<Rightarrow>
               (case preds_processor h1 pl_preds (pl_name env pipeline) of
                  Inl e \<Rightarrow> Inl e
                | Inr (t, h2) \<Rightarrow>
                    (case transform_loop env X rest h2 of
                       Inl e \<Rightarrow> Inl e
                     | Inr (input_pipeline_preds, h3) \<Rightarrow> Inr (t # input_pipeline_preds, h3)))))"

text \<open>
  \<^verbatim>\<open>transform(X)\<close>, lines 210 to 218. The result is the returned table together with
  the ensemble and the heap as the call leaves them.
\<close>

definition transform ::
  "('p, 'x, 'l, 'v, 'g) collaborators \<Rightarrow> ('p, 'x, 'l, 'g) ensemble \<Rightarrow> 'v heap \<Rightarrow> 'x list \<Rightarrow>
   error + ('v table \<times> ('p, 'x, 'l, 'g) ensemble \<times> 'v heap)" where
  "transform env ens h X =
     (if \<not> all_input_pipelines_fitted env ens
      then Inl (ValueError ''Input pipelines needs to be fitted before transform'')
      else
        (case transform_loop env X (input_pipelines ens) h of
           Inl e \<Rightarrow> Inl e
         | Inr (input_pipeline_preds, h1) \<Rightarrow>
             (case call (concat_columns env input_pipeline_preds) of
                Inl e \<Rightarrow> Inl e
              | Inr metalearner_X \<Rightarrow> Inr (metalearner_X, ens, h1))))"

section \<open>Notions used to state the properties\<close>

text \<open>The positional labels \<open>0, \<dots>, K - 1\<close>.\<close>

definition positional :: "nat \<Rightarrow> label list" where
  "positional K = map (\<lambda>i. IntL (int i)) [0..<K]"

text \<open>
  What \<^verbatim>\<open>_preds_processor\<close> leaves in the caller's object and what it returns, as
  functions of the table it is given: the steps of \<open>preds_processor\<close> without the heap.
\<close>

definition renamed_in_place :: "'v table \<Rightarrow> 'v table" where
  "renamed_in_place t = rename (new_columns_loop Map.empty (enumerate 0 (columns t))) t"

definition reshaped :: "'v table \<Rightarrow> string \<Rightarrow> 'v table" where
  "reshaped t pipeline_name =
     (let t1 = renamed_in_place t;
          t2 = (if length (columns t1) = 2 then drop_column (columns t1 ! 0) t1 else t1)
      in rename (map_of (map (\<lambda>col. (col, col_name col pipeline_name)) (columns t2))) t2)"

text \<open>The errors a class-cardinality violation is reported with (lines 143 and 145).\<close>

definition is_class_cardinality_error :: "error \<Rightarrow> bool" where
  "is_class_cardinality_error e =
     (e = ValueError ''Binary pipelines require y to have 2 unique classes!''
      \<or> e = ValueError ''Multiclass pipelines require y to have 3 or more unique classes!'')"

text \<open>
  The errors that can come out of \<open>fit\<close> after the validation and out of the loops: an
  exception of a collaborator, an index out of range, or the complaint of
  \<^verbatim>\<open>_preds_processor\<close> about its argument.
\<close>

fun is_later_error :: "error \<Rightarrow> bool" where
  "is_later_error (Raised _) = True"
| "is_later_error (IndexError _) = True"
| "is_later_error (ValueError msg) = (msg = ''Preds must be in the form of a pd.Dataframe'')"
| "is_later_error (KeyError _) = False"
| "is_later_error (TypeError _) = False"

text \<open>The rows at the given positions, for positions in range.\<close>

definition rows :: "'a list \<Rightarrow> nat list \<Rightarrow> 'a list" where
  "rows xs indices = map (\<lambda>i. xs ! i) indices"

text \<open>The training data of the folds, in fold order.\<close>

definition training_sets ::
  "'x list \<Rightarrow> 'l option list \<Rightarrow> (nat list \<times> nat list) list \<Rightarrow> ('x list \<times> 'l option list) list" where
  "training_sets X y splits = map (\<lambda>(train, valid). (rows X train, rows y train)) splits"

text \<open>A pipeline after a succession of \<^verbatim>\<open>fit\<close> calls on the given training data.\<close>

fun refit ::
  "('p, 'x, 'l, 'v, 'g) collaborators \<Rightarrow> 'p \<Rightarrow> ('x list \<times> 'l option list) list \<Rightarrow> error + 'p" where
  "refit env pipeline [] = Inr pipeline"
| "refit env pipeline ((X_train, y_train) # later) =
     (case call (pl_fit env pipeline X_train y_train) of
        Inl e \<Rightarrow> Inl e
      | Inr fitted \<Rightarrow> refit env fitted later)"

text \<open>
  The held-out predictions of a pipeline on validation rows, reshaped as
  \<^verbatim>\<open>_preds_processor\<close> does under the pipeline's name.
\<close>

definition held_out ::
  "('p, 'x, 'l, 'v, 'g) collaborators \<Rightarrow> 'p \<Rightarrow> 'x list \<Rightarrow> error + 'v table" where
  "held_out env pipeline X_valid =
     (case call (pl_predict_proba env pipeline X_valid) of
        Inl e \<Rightarrow> Inl e
      | Inr NotDataFrame \<Rightarrow> Inl (ValueError ''Preds must be in the form of a pd.Dataframe'')
      | Inr (DataFrame t) \<Rightarrow> Inr (reshaped t (pl_name env pipeline)))"

text \<open>
  The reshaped held-out predictions that fold \<open>i\<close> gets from a pipeline which has been
  fitted on the training rows of the folds \<open>0, \<dots>, i\<close> in turn.
\<close>

definition prediction_in_fold ::
  "('p, 'x, 'l, 'v, 'g) collaborators \<Rightarrow> 'x list \<Rightarrow> 'l option list \<Rightarrow>
   (nat list \<times> nat list) list \<Rightarrow> nat \<Rightarrow> 'p \<Rightarrow> error + 'v table" where
  "prediction_in_fold env X y splits i pipeline =
     (case refit env pipeline (training_sets X y (take (Suc i) splits)) of
        Inl e \<Rightarrow> Inl e
      | Inr fitted \<Rightarrow> held_out env fitted (rows X (snd (splits ! i))))"

text \<open>
  The fold loop as the design document words it, for comparison with \<open>cv_loop\<close>: in
  each fold every input pipeline is cloned anew, and the clones are fitted on the fold's
  training rows and predict on its validation rows.
\<close>

fun cv_loop_fresh_clones ::
  "('p, 'x, 'l, 'v, 'g) collaborators \<Rightarrow> 'x list \<Rightarrow> 'l option list \<Rightarrow>
   (nat list \<times> nat list) list \<Rightarrow> 'p list \<Rightarrow> 'v heap \<Rightarrow>
   error + ('v table list \<times> 'l option list list \<times> 'v heap)" where
  "cv_loop_fresh_clones env X y [] pipelines h = Inr ([], [], h)"
| "cv_loop_fresh_clones env X y ((train, valid) # splits) pipelines h =
     (case iloc X train of Inl e \<Rightarrow> Inl e | Inr X_train \<Rightarrow>
     (case iloc X valid of Inl e \<Rightarrow> Inl e | Inr X_valid \<Rightarrow>
     (case iloc y train of Inl e \<Rightarrow> Inl e | Inr y_train \<Rightarrow>
     (case iloc y valid of Inl e \<Rightarrow> Inl e | Inr y_valid \<Rightarrow>
     (case fit_predict_pipelines env X_train y_train X_valid (map (pl_clone env) pipelines) h of
        Inl e \<Rightarrow> Inl e
      | Inr (pls, fold_X, h1) \<Rightarrow>
          (case call (concat_columns env fold_X) of
             Inl e \<Rightarrow> Inl e
           | Inr block \<Rightarrow>
               (case cv_loop_fresh_clones env X y splits pipelines h1 of
                  Inl e \<Rightarrow> Inl e
                | Inr (metalearner_X, metalearner_y, h2) \<Rightarrow>
                    Inr (block # metalearner_X, y_valid # metalearner_y, h2))))))))"

text \<open>
  An environment for concrete runs. A pipeline is its name with the number of \<^verbatim>\<open>fit\<close>
  calls it has received since it was created; it is fitted once that number is positive,
  and it predicts, for every row, the pair of that number and its complement to one.
  Tables are concatenated as lists of columns, or column by column along the rows.
\<close>

definition append_rows :: "'v table \<Rightarrow> 'v table \<Rightarrow> 'v table" where
  "append_rows t u = map (\<lambda>((c, vs), (d, ws)). (c, vs @ ws)) (zip t u)"

definition counting_env ::
  "(string \<times> nat, int, int, int, int table \<times> int option list) collaborators" where
  "counting_env =
     \<lparr>pl_name = (\<lambda>(name, fits). name),
      pl_clone = (\<lambda>(name, fits). (name, 0)),
      pl_is_fitted = (\<lambda>(name, fits). 0 < fits),
      pl_fit = (\<lambda>(name, fits) X y. Inr (name, Suc fits)),
      pl_predict_proba = (\<lambda>(name, fits) X.
         Inr (DataFrame [(StrL ''no'', map (\<lambda>x. int fits) X),
                         (StrL ''yes'', map (\<lambda>x. 1 - int fits) X)])),
      make_data_splitter = (\<lambda>X y problem_type X' y'. [([0], [1]), ([1], [0])]),
      concat_columns = (\<lambda>ts. case ts of [] \<Rightarrow> Inl ''No objects to concatenate''
                                | t # rest \<Rightarrow> Inr (concat ts)),
      pd_concat = (\<lambda>ts. case ts of [] \<Rightarrow> Inl ''No objects to concatenate''
                           | t # rest \<Rightarrow> Inr (foldl append_rows t rest)),
      pd_concat_series = (\<lambda>ys. case ys of [] \<Rightarrow> Inl ''No objects to concatenate''
                                  | y # rest \<Rightarrow> Inr (concat ys)),
      loc_index = (\<lambda>t y. Inr t),
      graph_fit = (\<lambda>t y. Inr (t, y)),
      np_unique = (\<lambda>y. remdups y)\<rparr>"

definition empty_heap :: "int heap" where
  "empty_heap = \<lparr>cells = (\<lambda>a. NotDataFrame), next_addr = 0\<rparr>"

definition example_heap :: "int heap" where
  "example_heap =
     \<lparr>cells = (\<lambda>a. if a = 0 then DataFrame [(StrL ''no'', [7, 2]), (StrL ''yes'', [3, 8])]
                   else if a = 1 then DataFrame [(IntL 2, [1]), (IntL 0, [3]), (IntL 1, [5])]
                   else if a = 2 then DataFrame [(IntL 0, [4]), (IntL 1, [6])]
                   else NotDataFrame),
      next_addr = 3\<rparr>"

definition example_ensemble ::
  "ProblemTypes \<Rightarrow> (string \<times> nat) list \<Rightarrow> (string \<times> nat, int, int, int table \<times> int option list) ensemble" where
  "example_ensemble pt pipelines =
     \<lparr>problem_type = pt, input_pipelines = pipelines, cv_valid_data = [],
      component_graph = None, classes_attr = []\<rparr>"

section \<open>Facts about the resolver\<close>

lemma upper_examples:
  "upper ''BINARY'' = ''BINARY''" "upper ''binary'' = ''BINARY''"
  "upper ''Binary'' = ''BINARY''" "upper ''not_a_type'' = ''NOT_A_TYPE''"
  by code_simp+

lemma handle_loop_skips:
  "handle_loop members xs acc = handle_loop members (filter is_str_or_member xs) acc"
  by (induction members xs acc rule: handle_loop.induct) (auto split: option.splits)

lemma handle_loop_length:
  "handle_loop members xs acc = Inr ts \<Longrightarrow>
   length ts = length acc + length (filter is_str_or_member xs)"
  by (induction members xs acc arbitrary: ts rule: handle_loop.induct)
     (auto split: option.splits)

lemma handle_loop_only_others:
  "handle_loop members (filter (\<lambda>x. \<not> is_str_or_member x) xs) acc = Inr acc"
proof (induction xs arbitrary: acc)
  case Nil
  show ?case by simp
next
  case (Cons x xs)
  then show ?case by (cases x) simp_all
qed

lemma handle_loop_in_order:
  "list_all (\<lambda>x. resolve_one members x \<noteq> None) xs \<Longrightarrow>
   handle_loop members xs acc = Inr (acc @ map (\<lambda>x. the (resolve_one members x)) xs)"
  by (induction members xs acc rule: handle_loop.induct) (auto split: option.splits)


lemma handle_loop_unknown_string:
  "list_all (\<lambda>x. is_str_or_member x \<longrightarrow> resolve_one members x \<noteq> None) xs \<Longrightarrow>
   members (upper s) = None \<Longrightarrow>
   handle_loop members (xs @ PyStr s # rest) acc = Inl (KeyError (does_not_exist_msg s))"
  by (induction members xs acc rule: handle_loop.induct) (auto split: option.splits)

lemma sequence_is_resolved_in_order:
  "list_all (\<lambda>x. resolve_one members x \<noteq> None) xs \<Longrightarrow>
   handle_problem_types members (PySeq xs) =
     Inr (TypeList (map (\<lambda>x. the (resolve_one members x)) xs))"
  by (simp add: handle_loop_in_order)

section \<open>Claims about the resolver\<close>

text \<open>
  C5. A single input that is a member of the enumeration is returned as it is. A single
  string naming a member is wrapped into a list before the loop (line 16) and the list
  \<^verbatim>\<open>types\<close> is what line 27 returns: for \<^verbatim>\<open>"binary"\<close> the result is the one-element
  list \<^verbatim>\<open>[ProblemTypes.BINARY]\<close>, not the member \<^verbatim>\<open>ProblemTypes.BINARY\<close> that the
  docstring (str to ProblemTypes) and the branch for a member announce.
\<close>

theorem single_string_is_returned_in_a_list:
  "handle_problem_types ProblemTypes_getitem (PyStr ''binary'') = Inr (TypeList [BINARY])
   \<and> handle_problem_types ProblemTypes_getitem (PyStr ''binary'') \<noteq> Inr (Member BINARY)
   \<and> handle_problem_types ProblemTypes_getitem (PT BINARY) = Inr (Member BINARY)"
  by (simp add: upper_examples ProblemTypes_getitem_def)

text \<open>
  C6. A string that names no member of the enumeration after uppercasing makes the
  resolver raise \<^verbatim>\<open>KeyError\<close>, a \<^verbatim>\<open>LookupError\<close>, whose message quotes the string as
  it was given; a string that names a member raises nothing and resolves to that member.
\<close>

theorem unknown_string_raises_KeyError:
  "(members (upper s) = None \<longrightarrow>
      handle_problem_types members (PyStr s) =
        Inl (KeyError (''Problem type '' @ [CHR 0x27] @ s @ [CHR 0x27] @ '' does not exist''))
      \<and> (\<exists>e. handle_problem_types members (PyStr s) = Inl e \<and> is_LookupError e))
   \<and> (members (upper s) \<noteq> None \<longrightarrow>
      (\<exists>tp. members (upper s) = Some tp
          \<and> handle_problem_types members (PyStr s) = Inr (TypeList [tp])))"
  by (auto simp: does_not_exist_msg_def split: option.splits)

theorem unknown_string_raises_KeyError_witness:
  "handle_problem_types ProblemTypes_getitem (PyStr ''not_a_type'') =
     Inl (KeyError ''Problem type 'not_a_type' does not exist'')
   \<and> handle_problem_types ProblemTypes_getitem (PyStr ''regression'') =
     Inr (TypeList [REGRESSION])"
proof -
  have u1: "upper ''not_a_type'' = ''NOT_A_TYPE''" and u2: "upper ''regression'' = ''REGRESSION''"
    by code_simp+
  have n: "ProblemTypes_getitem (upper ''not_a_type'') = None"
    and m: "ProblemTypes_getitem (upper ''regression'') \<noteq> None"
    and r: "ProblemTypes_getitem (upper ''regression'') = Some REGRESSION"
    by (simp_all add: u1 u2 ProblemTypes_getitem_def)
  show ?thesis
    using unknown_string_raises_KeyError [of ProblemTypes_getitem "''not_a_type''"]
      unknown_string_raises_KeyError [of ProblemTypes_getitem "''regression''"] n m r
    by simp
qed

text \<open>
  C7. Two strings that are equal after uppercasing resolve alike: whatever value
  resolving one of them returns, resolving the other returns too, and when one raises so
  does the other, with an error of the same class (\<^verbatim>\<open>KeyError\<close>, each message quoting
  its own string). \<^verbatim>\<open>"BINARY"\<close>, \<^verbatim>\<open>"binary"\<close> and \<^verbatim>\<open>"Binary"\<close> all resolve to
  the same value.
\<close>

theorem resolver_is_case_insensitive:
  "(upper a = upper b \<longrightarrow>
      (\<forall>r. handle_problem_types members (PyStr a) = Inr r
           \<longleftrightarrow> handle_problem_types members (PyStr b) = Inr r)
      \<and> same_outcome (handle_problem_types members (PyStr a))
                     (handle_problem_types members (PyStr b)))
   \<and> handle_problem_types ProblemTypes_getitem (PyStr ''BINARY'') = Inr (TypeList [BINARY])
   \<and> handle_problem_types ProblemTypes_getitem (PyStr ''binary'') = Inr (TypeList [BINARY])
   \<and> handle_problem_types ProblemTypes_getitem (PyStr ''Binary'') = Inr (TypeList [BINARY])"
  by (auto simp: upper_examples ProblemTypes_getitem_def split: option.splits)

theorem resolver_is_case_insensitive_witness:
  "upper ''multiClass'' = upper ''MULTIclass''
   \<and> handle_problem_types ProblemTypes_getitem (PyStr ''multiClass'') = Inr (TypeList [MULTICLASS])
   \<and> handle_problem_types ProblemTypes_getitem (PyStr ''MULTIclass'') = Inr (TypeList [MULTICLASS])
   \<and> upper ''no_such'' = upper ''No_Such''
   \<and> same_outcome (handle_problem_types ProblemTypes_getitem (PyStr ''no_such''))
                  (handle_problem_types ProblemTypes_getitem (PyStr ''No_Such''))"
proof -
  have u: "upper ''multiClass'' = ''MULTICLASS''" "upper ''MULTIclass'' = ''MULTICLASS''"
    "upper ''no_such'' = ''NO_SUCH''" "upper ''No_Such'' = ''NO_SUCH''"
    by code_simp+
  have e1: "upper ''multiClass'' = upper ''MULTIclass''"
    and e2: "upper ''no_such'' = upper ''No_Such''"
    by (simp_all only: u)
  have m: "handle_problem_types ProblemTypes_getitem (PyStr ''multiClass'') =
      Inr (TypeList [MULTICLASS])"
    by (simp add: u ProblemTypes_getitem_def)
  from resolver_is_case_insensitive [of "''multiClass''" "''MULTIclass''" ProblemTypes_getitem] e1 m
  have "handle_problem_types ProblemTypes_getitem (PyStr ''MULTIclass'') =
      Inr (TypeList [MULTICLASS])"
    by blast
  with resolver_is_case_insensitive [of "''no_such''" "''No_Such''" ProblemTypes_getitem] e1 e2 m
  show ?thesis by blast
qed

text \<open>
  C10. In a sequence, an element that is neither a string nor a member of the
  enumeration is passed over: the outcome, value or error, is that of the sequence
  without such elements; a sequence made of such elements only raises nothing and gives
  the empty list; and the returned list has one entry per string or member, so it is
  shorter than the input as soon as another element is present.
\<close>

theorem other_elements_are_skipped:
  "handle_problem_types members (PySeq xs) =
     handle_problem_types members (PySeq (filter is_str_or_member xs))
   \<and> handle_problem_types members (PySeq (filter (\<lambda>x. \<not> is_str_or_member x) xs)) =
     Inr (TypeList [])
   \<and> (\<forall>ts. handle_problem_types members (PySeq xs) = Inr (TypeList ts) \<longrightarrow>
        length ts = length (filter is_str_or_member xs)
        \<and> (list_ex (\<lambda>x. \<not> is_str_or_member x) xs \<longrightarrow> length ts < length xs))"
proof (intro conjI allI impI)
  show "handle_problem_types members (PySeq xs) =
     handle_problem_types members (PySeq (filter is_str_or_member xs))"
    using handle_loop_skips [of members xs "[]"] by simp
  show "handle_problem_types members (PySeq (filter (\<lambda>x. \<not> is_str_or_member x) xs)) =
     Inr (TypeList [])"
    by (simp add: handle_loop_only_others)
next
  fix ts
  assume r: "handle_problem_types members (PySeq xs) = Inr (TypeList ts)"
  then have "handle_loop members xs [] = Inr ts"
    by (cases "handle_loop members xs []") simp_all
  then show len: "length ts = length (filter is_str_or_member xs)"
    using handle_loop_length [of members xs "[]" ts] by simp
  assume "list_ex (\<lambda>x. \<not> is_str_or_member x) xs"
  then have "length (filter is_str_or_member xs) < length xs"
    by (auto simp: list_ex_iff intro: length_filter_less)
  with len show "length ts < length xs" by simp
qed

theorem other_elements_are_skipped_witness:
  "handle_problem_types ProblemTypes_getitem
     (PySeq [PyStr ''binary'', PyOther, PT MULTICLASS, PySeq [PyStr ''regression'']]) =
   Inr (TypeList [BINARY, MULTICLASS])
   \<and> length [BINARY, MULTICLASS]
     < length [PyStr ''binary'', PyOther, PT MULTICLASS, PySeq [PyStr ''regression'']]"
  using other_elements_are_skipped
    [of ProblemTypes_getitem "[PyStr ''binary'', PyOther, PT MULTICLASS, PySeq [PyStr ''regression'']]"]
  by (simp add: upper_examples ProblemTypes_getitem_def)


section \<open>Facts about the reshaping of prediction tables\<close>


lemma of_char_digit_char: "d < 10 \<Longrightarrow> (of_char (digit_char d) :: nat) = 48 + d"
  by (simp add: digit_char_def)

lemma digit_char_inj: "d < 10 \<Longrightarrow> e < 10 \<Longrightarrow> digit_char d = digit_char e \<Longrightarrow> d = e"
proof -
  assume d: "d < 10" and e: "e < 10" and eq: "digit_char d = digit_char e"
  from eq have "(of_char (digit_char d) :: nat) = of_char (digit_char e)" by simp
  with d e show "d = e" by (simp add: of_char_digit_char)
qed

lemma digit_char_not_space: "d < 10 \<Longrightarrow> digit_char d \<noteq> CHR '' ''"
proof
  assume d: "d < 10" and eq: "digit_char d = CHR '' ''"
  from eq have "(of_char (digit_char d) :: nat) = of_char (CHR '' '')" by simp
  with d show False by (simp add: of_char_digit_char)
qed

lemma str_nat_not_Nil: "str_nat n \<noteq> []"
  by (subst str_nat.simps) simp

lemma str_nat_no_space: "CHR '' '' \<notin> set (str_nat n)"
proof (induction n rule: str_nat.induct)
  case (1 n)
  show ?case
  proof (cases "n < 10")
    case True
    then show ?thesis
      using digit_char_not_space [of n] by (subst str_nat.simps) auto
  next
    case False
    have "n mod 10 < 10" by simp
    then have "digit_char (n mod 10) \<noteq> CHR '' ''" by (rule digit_char_not_space)
    with False "1.IH" show ?thesis
      by (subst str_nat.simps) auto
  qed
qed

lemma str_nat_inj: "str_nat n = str_nat m \<Longrightarrow> n = m"
proof (induction n arbitrary: m rule: str_nat.induct)
  case (1 n)
  show ?case
  proof (cases "n < 10")
    case small_n: True
    show ?thesis
    proof (cases "m < 10")
      case True
      with small_n "1.prems" show ?thesis
        by (simp add: str_nat.simps [of n] str_nat.simps [of m] digit_char_inj)
    next
      case False
      with small_n "1.prems" str_nat_not_Nil [of "m div 10"] show ?thesis
        by (simp add: str_nat.simps [of n] str_nat.simps [of m])
    qed
  next
    case big_n: False
    show ?thesis
    proof (cases "m < 10")
      case True
      with big_n "1.prems" str_nat_not_Nil [of "n div 10"] show ?thesis
        by (simp add: str_nat.simps [of n] str_nat.simps [of m])
    next
      case False
      with big_n "1.prems" have leading: "str_nat (n div 10) = str_nat (m div 10)"
        and final: "digit_char (n mod 10) = digit_char (m mod 10)"
        by (simp_all add: str_nat.simps [of n] str_nat.simps [of m])
      from big_n leading have "n div 10 = m div 10" by (rule "1.IH")
      moreover from final have "n mod 10 = m mod 10" by (rule digit_char_inj [rotated 2]) simp_all
      ultimately show ?thesis by (metis div_mult_mod_eq)
    qed
  qed
qed

lemma split_at_separator:
  "c \<notin> set a \<Longrightarrow> c \<notin> set b \<Longrightarrow> a @ c # x = b @ c # y \<Longrightarrow> a = b \<and> x = y"
proof (induction a arbitrary: b)
  case Nil
  then show ?case by (cases b) auto
next
  case (Cons u a)
  then show ?case by (cases b) auto
qed

lemma col_name_inj:
  "col_name (IntL (int i)) n = col_name (IntL (int j)) m \<Longrightarrow> i = j \<and> n = m"
proof -
  assume "col_name (IntL (int i)) n = col_name (IntL (int j)) m"
  then have "str_nat i @ CHR '' '' # (n @ ''.x'') = str_nat j @ CHR '' '' # (m @ ''.x'')"
    by (simp add: col_name_def str_int_def)
  then have "str_nat i = str_nat j \<and> n @ ''.x'' = m @ ''.x''"
    by (rule split_at_separator [OF str_nat_no_space str_nat_no_space])
  then show ?thesis by (auto dest: str_nat_inj)
qed

lemma new_columns_loop_other:
  "c \<notin> set (map snd ics) \<Longrightarrow> new_columns_loop m ics c = m c"
  by (induction m ics rule: new_columns_loop.induct) auto

lemma new_columns_loop_nth:
  "distinct cols \<Longrightarrow> i < length cols \<Longrightarrow>
   new_columns_loop m (enumerate n cols) (cols ! i) = Some (IntL (int (n + i)))"
proof (induction cols arbitrary: m n i)
  case Nil
  then show ?case by simp
next
  case (Cons c cs)
  show ?case
  proof (cases i)
    case 0
    from Cons.prems have "c \<notin> set (map snd (enumerate (Suc n) cs))" by simp
    then show ?thesis using 0 by (simp add: new_columns_loop_other)
  next
    case (Suc k)
    with Cons.prems have "distinct cs" "k < length cs" by simp_all
    then have "new_columns_loop (m(c \<mapsto> IntL (int n))) (enumerate (Suc n) cs) (cs ! k) =
      Some (IntL (int (Suc n + k)))"
      by (rule Cons.IH)
    with Suc show ?thesis by simp
  qed
qed

lemma renamed_in_place_eq:
  assumes "distinct (columns t)"
  shows "renamed_in_place t = zip (positional (length t)) (map snd t)"
proof (rule nth_equalityI)
  show "length (renamed_in_place t) = length (zip (positional (length t)) (map snd t))"
    by (simp add: renamed_in_place_def rename_def positional_def)
next
  fix i
  assume "i < length (renamed_in_place t)"
  then have i: "i < length t" by (simp add: renamed_in_place_def rename_def)
  then have "new_columns_loop Map.empty (enumerate 0 (columns t)) (columns t ! i) =
    Some (IntL (int (0 + i)))"
    using assms by (intro new_columns_loop_nth) (simp_all add: columns_def)
  with i show "renamed_in_place t ! i = zip (positional (length t)) (map snd t) ! i"
    by (simp add: renamed_in_place_def rename_def positional_def columns_def split_beta)
qed

lemma columns_renamed_in_place:
  "distinct (columns t) \<Longrightarrow> columns (renamed_in_place t) = positional (length t)"
  by (simp add: renamed_in_place_eq columns_def positional_def)

lemma rename_all_columns:
  "rename (map_of (map (\<lambda>col. (col, f col)) (columns u))) u = map (\<lambda>(c, vs). (f c, vs)) u"
proof -
  have "map_of (map (\<lambda>col. (col, f col)) (columns u)) c = Some (f c)" if "c \<in> set (columns u)" for c
    using that by (simp add: map_of_map_restrict)
  then have "(case map_of (map (\<lambda>col. (col, f col)) (columns u)) c of None \<Rightarrow> c | Some n \<Rightarrow> n) = f c"
    if "(c, vs) \<in> set u" for c vs
    using that by (force simp: columns_def)
  then show ?thesis
    unfolding rename_def by (intro map_cong) auto
qed

lemma reshaped_eq:
  assumes "distinct (columns t)"
  shows "reshaped t name =
    (if length t = 2 then [(col_name (IntL 1) name, snd (t ! 1))]
     else zip (map (\<lambda>i. col_name (IntL (int i)) name) [0..<length t]) (map snd t))"
proof (cases "length t = 2")
  case True
  then obtain a b where t: "t = [a, b]"
    by (cases t; cases "tl t") auto
  have "renamed_in_place t = [(IntL 0, snd a), (IntL 1, snd b)]"
    using renamed_in_place_eq [OF assms] by (simp add: t positional_def upt_rec)
  then have "reshaped t name = map (\<lambda>(c, vs). (col_name c name, vs)) [(IntL 1, snd b)]"
    unfolding reshaped_def Let_def rename_all_columns
    by (simp add: t columns_def drop_column_def)
  then show ?thesis
    by (simp add: t)
next
  case False
  have r: "renamed_in_place t = zip (positional (length t)) (map snd t)"
    by (rule renamed_in_place_eq [OF assms])
  have c: "length (columns (renamed_in_place t)) = length t"
    by (simp add: r columns_def positional_def)
  show ?thesis
    using False
    by (simp add: reshaped_def c rename_all_columns Let_def)
       (simp add: r positional_def zip_map1 zip_map2 split_beta)
qed

lemma preds_processor_DataFrame:
  "cells h preds = DataFrame t \<Longrightarrow>
   preds_processor h preds name =
     Inr (reshaped t name, h\<lparr>cells := (cells h)(preds := DataFrame (renamed_in_place t))\<rparr>)"
  by (simp add: preds_processor_def reshaped_def renamed_in_place_def Let_def)

lemma preds_processor_NotDataFrame:
  "cells h preds = NotDataFrame \<Longrightarrow>
   preds_processor h preds name = Inl (ValueError ''Preds must be in the form of a pd.Dataframe'')"
  by (simp add: preds_processor_def)



lemma col_name_inj_int:
  assumes "0 \<le> i" and "0 \<le> j" and "col_name (IntL i) n = col_name (IntL j) m"
  shows "i = j \<and> n = m"
proof -
  from assms(1,2) obtain a b where "i = int a" "j = int b"
    by (metis nonneg_int_cases)
  with assms(3) show ?thesis
    using col_name_inj [of a n b m] by simp
qed

lemma columns_reshaped:
  assumes "distinct (columns t)"
  shows "columns (reshaped t name) =
    map (\<lambda>i. col_name (IntL (int i)) name) (if length t = 2 then [1] else [0..<length t])"
  by (simp add: reshaped_eq [OF assms] columns_def)

lemma distinct_columns_reshaped:
  assumes "distinct (columns t)"
  shows "distinct (columns (reshaped t name))"
  unfolding columns_reshaped [OF assms]
  by (auto simp: distinct_map intro!: inj_onI dest: col_name_inj)

text \<open>
  C3. For a prediction table with \<open>K\<close> pairwise distinct column labels and any pipeline
  name, \<^verbatim>\<open>_preds_processor\<close> first renames the columns of the table it is given to the
  positions \<open>0, \<dots>, K - 1\<close>. With exactly two columns the first one is dropped and one
  column is returned, named from position 1 and the pipeline name; with more than two
  columns all \<open>K\<close> are returned (and so are they for \<open>K < 2\<close>), the column at position
  \<open>i\<close> named from \<open>i\<close> and the pipeline name. The returned names are pairwise distinct,
  and they are disjoint from the names returned for any table under another pipeline name.
\<close>

theorem reshaping_shape_and_names:
  fixes h :: "'v heap"
  assumes "cells h preds = DataFrame t" and "distinct (columns t)"
  shows "\<exists>r h'. preds_processor h preds pipeline_name = Inr (r, h')
    \<and> cells h' preds = DataFrame (zip (positional (length t)) (map snd t))
    \<and> (length t = 2 \<longrightarrow> length r = 1 \<and> r = [(col_name (IntL 1) pipeline_name, snd (t ! 1))])
    \<and> (2 < length t \<longrightarrow> length r = length t)
    \<and> (length t \<noteq> 2 \<longrightarrow>
         r = zip (map (\<lambda>i. col_name (IntL (int i)) pipeline_name) [0..<length t]) (map snd t))
    \<and> distinct (columns r)
    \<and> (\<forall>(h2 :: 'v heap) preds2 t2 other_name r2 h2'.
          cells h2 preds2 = DataFrame t2 \<and> distinct (columns t2)
          \<and> other_name \<noteq> pipeline_name
          \<and> preds_processor h2 preds2 other_name = Inr (r2, h2')
          \<longrightarrow> set (columns r) \<inter> set (columns r2) = {})"
proof -
  let ?r = "reshaped t pipeline_name"
  let ?h = "h\<lparr>cells := (cells h)(preds := DataFrame (renamed_in_place t))\<rparr>"
  have run: "preds_processor h preds pipeline_name = Inr (?r, ?h)"
    by (rule preds_processor_DataFrame [OF assms(1)])
  have stored: "cells ?h preds = DataFrame (zip (positional (length t)) (map snd t))"
    by (simp add: renamed_in_place_eq [OF assms(2)])
  have two: "length t = 2 \<longrightarrow> length ?r = 1 \<and> ?r = [(col_name (IntL 1) pipeline_name, snd (t ! 1))]"
    by (simp add: reshaped_eq [OF assms(2)])
  have many: "2 < length t \<longrightarrow> length ?r = length t"
    by (simp add: reshaped_eq [OF assms(2)])
  have other: "length t \<noteq> 2 \<longrightarrow>
      ?r = zip (map (\<lambda>i. col_name (IntL (int i)) pipeline_name) [0..<length t]) (map snd t)"
    by (simp add: reshaped_eq [OF assms(2)])
  have dist: "distinct (columns ?r)"
    by (rule distinct_columns_reshaped [OF assms(2)])
  have across: "set (columns ?r) \<inter> set (columns r2) = {}"
    if "cells h2 preds2 = DataFrame t2" "distinct (columns t2)" "other_name \<noteq> pipeline_name"
      "preds_processor h2 preds2 other_name = Inr (r2, h2')"
    for h2 :: "'v heap" and preds2 t2 other_name r2 h2'
  proof -
    from that have "r2 = reshaped t2 other_name"
      by (simp add: preds_processor_DataFrame)
    then have "columns r2 = map (\<lambda>i. col_name (IntL (int i)) other_name)
        (if length t2 = 2 then [1] else [0..<length t2])"
      using that(2) by (simp add: columns_reshaped)
    with that(3) show ?thesis
      unfolding columns_reshaped [OF assms(2)]
      by (auto dest!: col_name_inj_int [rotated 2])
  qed
  from run stored two many other dist across show ?thesis
    by blast
qed



lemma col_name_examples:
  "col_name (IntL 0) ''RF'' = StrL ''Col 0 RF.x''"
  "col_name (IntL 1) ''RF'' = StrL ''Col 1 RF.x''"
  "col_name (IntL 2) ''RF'' = StrL ''Col 2 RF.x''"
  "col_name (IntL 1) ''A'' = StrL ''Col 1 A.x''"
  "col_name (IntL 1) ''B'' = StrL ''Col 1 B.x''"
  by code_simp+

theorem reshaping_shape_and_names_witness:
  "cells example_heap 0 = DataFrame [(StrL ''no'', [7, 2]), (StrL ''yes'', [3, 8])]
   \<and> distinct (columns [(StrL ''no'', [7, 2 :: int]), (StrL ''yes'', [3, 8])])
   \<and> (\<exists>h'. preds_processor example_heap 0 ''RF'' = Inr ([(StrL ''Col 1 RF.x'', [3, 8])], h')
          \<and> cells h' 0 = DataFrame [(IntL 0, [7, 2]), (IntL 1, [3, 8])])"
proof -
  let ?t = "[(StrL ''no'', [7, 2 :: int]), (StrL ''yes'', [3, 8])]"
  have c: "cells example_heap 0 = DataFrame ?t" by (simp add: example_heap_def)
  have d: "distinct (columns ?t)" by (simp add: columns_def)
  from reshaping_shape_and_names [OF c d, of "''RF''"]
  obtain r h' where "preds_processor example_heap 0 ''RF'' = Inr (r, h')"
    and "cells h' 0 = DataFrame (zip (positional (length ?t)) (map snd ?t))"
    and "r = [(col_name (IntL 1) ''RF'', snd (?t ! 1))]"
    by auto
  then have "preds_processor example_heap 0 ''RF'' = Inr ([(StrL ''Col 1 RF.x'', [3, 8])], h')
    \<and> cells h' 0 = DataFrame [(IntL 0, [7, 2]), (IntL 1, [3, 8])]"
    by (simp add: col_name_examples positional_def upt_rec)
  with c d show ?thesis by blast
qed

lemma zip_same_right:
  "length a = length c \<Longrightarrow> length b = length c \<Longrightarrow> zip a c = zip b c \<longleftrightarrow> a = b"
  by (metis map_fst_zip)

text \<open>
  C9. \<^verbatim>\<open>_preds_processor\<close> renames the table it is given in place: after the call the
  caller's object holds the same columns under the labels \<open>0, \<dots>, K - 1\<close>, whatever the
  call returns (with two columns the returned table has one column, the caller's object
  still two). Nothing else in the heap changes. The caller's object differs from what it
  was exactly when its labels were not the positions already; a table labelled
  \<open>0, \<dots>, K - 1\<close> from the start is left as it was.
\<close>

theorem reshaping_renames_the_callers_table:
  fixes h :: "'v heap"
  assumes "cells h preds = DataFrame t" and "distinct (columns t)"
  shows "\<exists>r h'. preds_processor h preds pipeline_name = Inr (r, h')
    \<and> cells h' preds = DataFrame (zip (positional (length t)) (map snd t))
    \<and> (\<forall>a. a \<noteq> preds \<longrightarrow> cells h' a = cells h a)
    \<and> next_addr h' = next_addr h
    \<and> (cells h' preds = cells h preds \<longleftrightarrow> columns t = positional (length t))
    \<and> (length t = 2 \<longrightarrow> length r = 1 \<and> length (zip (positional (length t)) (map snd t)) = 2)"
proof -
  let ?r = "reshaped t pipeline_name"
  let ?h = "h\<lparr>cells := (cells h)(preds := DataFrame (renamed_in_place t))\<rparr>"
  have run: "preds_processor h preds pipeline_name = Inr (?r, ?h)"
    by (rule preds_processor_DataFrame [OF assms(1)])
  have stored: "cells ?h preds = DataFrame (zip (positional (length t)) (map snd t))"
    by (simp add: renamed_in_place_eq [OF assms(2)])
  have others: "\<forall>a. a \<noteq> preds \<longrightarrow> cells ?h a = cells h a"
    by simp
  have limit: "next_addr ?h = next_addr h"
    by simp
  have "zip (positional (length t)) (map snd t) = zip (map fst t) (map snd t)
      \<longleftrightarrow> positional (length t) = map fst t"
    by (rule zip_same_right) (simp_all add: positional_def)
  then have same: "cells ?h preds = cells h preds \<longleftrightarrow> columns t = positional (length t)"
    unfolding stored assms(1) by (auto simp: zip_map_fst_snd columns_def)
  have two: "length t = 2 \<longrightarrow>
      length ?r = 1 \<and> length (zip (positional (length t)) (map snd t)) = 2"
    by (simp add: reshaped_eq [OF assms(2)] positional_def)
  from run stored others limit same two show ?thesis
    by blast
qed

theorem reshaping_renames_the_callers_table_witness:
  "cells example_heap 0 = DataFrame [(StrL ''no'', [7, 2]), (StrL ''yes'', [3, 8])]
   \<and> distinct (columns [(StrL ''no'', [7, 2 :: int]), (StrL ''yes'', [3, 8])])
   \<and> (\<exists>r h'. preds_processor example_heap 0 ''RF'' = Inr (r, h')
          \<and> cells h' 0 = DataFrame [(IntL 0, [7, 2]), (IntL 1, [3, 8])]
          \<and> cells h' 0 \<noteq> cells example_heap 0
          \<and> cells h' 1 = cells example_heap 1
          \<and> length r = 1)"
proof -
  let ?t = "[(StrL ''no'', [7, 2 :: int]), (StrL ''yes'', [3, 8])]"
  have c: "cells example_heap 0 = DataFrame ?t" by (simp add: example_heap_def)
  have d: "distinct (columns ?t)" by (simp add: columns_def)
  from reshaping_renames_the_callers_table [OF c d, of "''RF''"]
  obtain r h' where run: "preds_processor example_heap 0 ''RF'' = Inr (r, h')"
    and stored: "cells h' 0 = DataFrame (zip (positional (length ?t)) (map snd ?t))"
    and others: "\<forall>a. a \<noteq> 0 \<longrightarrow> cells h' a = cells example_heap a"
    and same: "cells h' 0 = cells example_heap 0 \<longleftrightarrow> columns ?t = positional (length ?t)"
    and two: "length ?t = 2 \<longrightarrow> length r = 1"
    by auto
  from stored have s: "cells h' 0 = DataFrame [(IntL 0, [7, 2]), (IntL 1, [3, 8])]"
    by (simp add: positional_def upt_rec)
  from same have n: "cells h' 0 \<noteq> cells example_heap 0"
    by (simp add: positional_def columns_def upt_rec)
  from others have o: "cells h' 1 = cells example_heap 1" by simp
  from two have l: "length r = 1" by simp
  from c d run s n o l show ?thesis by blast
qed

text \<open>
  A table whose labels are the positions already: the call returns its reshaped copy and
  leaves the heap, the caller's object included, as it was.
\<close>

theorem positional_table_counterexample:
  "cells example_heap 2 = DataFrame [(IntL 0, [4]), (IntL 1, [6])]
   \<and> preds_processor example_heap 2 ''RF'' =
       Inr ([(StrL ''Col 1 RF.x'', [6])], example_heap)"
proof -
  let ?t = "[(IntL 0, [4 :: int]), (IntL 1, [6])]"
  have c: "cells example_heap 2 = DataFrame ?t" by (simp add: example_heap_def)
  have d: "distinct (columns ?t)" by (simp add: columns_def)
  have r: "renamed_in_place ?t = ?t"
    by (simp add: renamed_in_place_eq [OF d] positional_def upt_rec)
  have s: "reshaped ?t ''RF'' = [(StrL ''Col 1 RF.x'', [6])]"
    by (simp add: reshaped_eq [OF d] col_name_examples)
  have "(cells example_heap)(2 := DataFrame ?t) = cells example_heap"
    using c by (metis fun_upd_triv)
  then have "example_heap\<lparr>cells := (cells example_heap)(2 := DataFrame ?t)\<rparr> = example_heap"
    by simp
  with preds_processor_DataFrame [OF c, of "''RF''"] r s c show ?thesis
    by simp
qed

section \<open>Errors and heap effects of the loops\<close>

lemma call_error: "call r = Inl e \<Longrightarrow> is_later_error e"
  by (auto simp: call_def split: sum.splits)

lemma iloc_error: "iloc xs indices = Inl e \<Longrightarrow> is_later_error e"
  by (auto simp: iloc_def split: if_splits)

lemma iloc_rows: "iloc xs indices = Inr ys \<Longrightarrow> ys = rows xs indices"
  by (auto simp: iloc_def rows_def split: if_splits)

lemma preds_processor_error:
  "preds_processor h preds name = Inl e \<Longrightarrow> is_later_error e"
  by (auto simp: preds_processor_def Let_def split: pyobj.splits)

lemma preds_processor_frame:
  "preds_processor h preds name = Inr (t, h') \<Longrightarrow>
   next_addr h' = next_addr h \<and> (\<forall>a. a \<noteq> preds \<longrightarrow> cells h' a = cells h a)"
  by (auto simp: preds_processor_def Let_def split: pyobj.splits)

lemma new_object_frame:
  "new_object obj h = (a, h1) \<Longrightarrow>
   a = next_addr h \<and> next_addr h1 = Suc (next_addr h) \<and> cells h1 a = obj
   \<and> (\<forall>b. b \<noteq> a \<longrightarrow> cells h1 b = cells h b)"
  by (auto simp: new_object_def)

lemma transform_loop_error:
  "transform_loop env X pipelines h = Inl e \<Longrightarrow> is_later_error e"
proof (induction pipelines arbitrary: h)
  case Nil
  then show ?case by simp
next
  case (Cons p ps)
  then show ?case
    by (auto split: sum.splits prod.splits dest: call_error preds_processor_error)
qed

lemma transform_loop_frame:
  "transform_loop env X pipelines h = Inr (ts, h') \<Longrightarrow>
   next_addr h \<le> next_addr h' \<and> (\<forall>a<next_addr h. cells h' a = cells h a)"
proof (induction pipelines arbitrary: h ts h')
  case Nil
  then show ?case by simp
next
  case (Cons p ps)
  from Cons.prems obtain obj a h1 t h2 rest where
    alloc: "new_object obj h = (a, h1)"
    and proc: "preds_processor h1 a (pl_name env p) = Inr (t, h2)"
    and loop: "transform_loop env X ps h2 = Inr (rest, h')"
    by (auto split: sum.splits prod.splits)
  from new_object_frame [OF alloc] preds_processor_frame [OF proc] Cons.IH [OF loop]
  show ?case by auto
qed


lemma process_valid_preds_error:
  "process_valid_preds h name entries = Inl e \<Longrightarrow> is_later_error e"
proof (induction entries arbitrary: h)
  case Nil
  then show ?case by simp
next
  case (Cons x xs)
  then show ?case
    by (cases x) (auto split: sum.splits prod.splits dest: preds_processor_error)
qed

lemma cv_valid_items_error:
  "cv_valid_items env h items = Inl e \<Longrightarrow> is_later_error e"
proof (induction items arbitrary: h)
  case Nil
  then show ?case by simp
next
  case (Cons x xs)
  then show ?case
    by (cases x)
       (auto split: sum.splits prod.splits dest: process_valid_preds_error call_error)
qed

lemma cv_valid_branch_error:
  "cv_valid_branch env ens h y = Inl e \<Longrightarrow> is_later_error e"
  by (auto simp: cv_valid_branch_def split: sum.splits prod.splits if_splits
      dest: cv_valid_items_error call_error)

lemma fit_predict_pipelines_error:
  "fit_predict_pipelines env X_train y_train X_valid pipelines h = Inl e \<Longrightarrow> is_later_error e"
proof (induction pipelines arbitrary: h)
  case Nil
  then show ?case by simp
next
  case (Cons p ps)
  then show ?case
    by (auto split: sum.splits prod.splits dest: call_error preds_processor_error)
qed

lemma cv_loop_error:
  "cv_loop env X y splits pred_pls h = Inl e \<Longrightarrow> is_later_error e"
proof (induction splits arbitrary: pred_pls h)
  case Nil
  then show ?case by simp
next
  case (Cons s splits)
  then show ?case
    by (cases s)
       (auto split: sum.splits prod.splits
        dest: iloc_error call_error fit_predict_pipelines_error)
qed

lemma cv_split_branch_error:
  "cv_split_branch env ens h X y data_splitter = Inl e \<Longrightarrow> is_later_error e"
  by (auto simp: cv_split_branch_def Let_def split: sum.splits prod.splits
      dest: cv_loop_error call_error)

lemma fit_input_pipelines_error:
  "fit_input_pipelines env pipelines X y = Inl e \<Longrightarrow> is_later_error e"
  by (induction pipelines) (auto split: sum.splits dest: call_error)

lemma fit_after_validation_error:
  "fit_after_validation env ens h X y data_splitter force_retrain = Inl e \<Longrightarrow> is_later_error e"
  unfolding fit_after_validation_def Let_def
  by (auto split: sum.splits prod.splits if_splits
      dest: fit_input_pipelines_error cv_valid_branch_error cv_split_branch_error call_error)

lemma later_error_not_class_cardinality:
  "is_later_error e \<Longrightarrow> \<not> is_class_cardinality_error e"
  by (cases e) (auto simp: is_class_cardinality_error_def)

lemma nunique_card: "nunique y = card {v. Some v \<in> set y}"
proof -
  have "nunique y = card (set (filter (\<lambda>v. v \<noteq> None) y))"
    by (simp add: nunique_def length_remdups_card_conv)
  also have "set (filter (\<lambda>v. v \<noteq> None) y) = Some ` {v. Some v \<in> set y}"
    by (auto simp: image_iff)
  also have "card (Some ` {v. Some v \<in> set y}) = card {v. Some v \<in> set y}"
    by (simp add: card_image)
  finally show ?thesis .
qed

section \<open>Claims about the ensemble\<close>

text \<open>
  C1. For a binary ensemble, \<^verbatim>\<open>fit\<close> raises the \<^verbatim>\<open>ValueError\<close> about the number of
  classes exactly when \<open>y\<close> does not have exactly 2 distinct labels. With exactly 2 the
  validation passes and \<^verbatim>\<open>fit\<close> goes on with lines 149 to 208, none of whose errors
  is a class-cardinality error.
\<close>

theorem binary_fit_class_cardinality:
  assumes "problem_type ens = BINARY"
  shows "(nunique y \<noteq> 2 \<longrightarrow>
            fit env ens h X y data_splitter force_retrain =
              Inl (ValueError ''Binary pipelines require y to have 2 unique classes!''))
    \<and> (nunique y = 2 \<longrightarrow>
            fit env ens h X y data_splitter force_retrain =
              fit_after_validation env ens h X y data_splitter force_retrain)
    \<and> ((\<exists>e. fit env ens h X y data_splitter force_retrain = Inl e
              \<and> is_class_cardinality_error e) \<longleftrightarrow> nunique y \<noteq> 2)"
proof -
  have bad: "fit env ens h X y data_splitter force_retrain =
      Inl (ValueError ''Binary pipelines require y to have 2 unique classes!'')"
    if "nunique y \<noteq> 2"
    using that assms by (simp add: fit_def is_binary_def)
  have good: "fit env ens h X y data_splitter force_retrain =
      fit_after_validation env ens h X y data_splitter force_retrain"
    if "nunique y = 2"
    using that assms by (simp add: fit_def is_binary_def is_multiclass_def)
  have "\<not> is_class_cardinality_error e"
    if "nunique y = 2" "fit env ens h X y data_splitter force_retrain = Inl e" for e
    using that good fit_after_validation_error later_error_not_class_cardinality
    by metis
  moreover have "\<exists>e. fit env ens h X y data_splitter force_retrain = Inl e
      \<and> is_class_cardinality_error e" if "nunique y \<noteq> 2"
    using bad [OF that] by (simp add: is_class_cardinality_error_def)
  ultimately show ?thesis
    using bad good by blast
qed


theorem binary_fit_class_cardinality_witness:
  "problem_type (example_ensemble BINARY [(''A'', 1)]) = BINARY
   \<and> nunique [Some 0, Some (0::int)] = 1
   \<and> fit counting_env (example_ensemble BINARY [(''A'', 1)]) empty_heap [10, 20]
         [Some 0, Some 0] None False =
       Inl (ValueError ''Binary pipelines require y to have 2 unique classes!'')
   \<and> nunique [Some 0, Some (1::int)] = 2
   \<and> map_sum id (\<lambda>(ens, h). component_graph ens)
         (fit counting_env (example_ensemble BINARY [(''A'', 1)]) empty_heap [10, 20]
            [Some 0, Some 1] None False) =
       Inr (Some ([(StrL ''Col 1 A.x'', [0, - 1])], [Some 1, Some 0]))"
proof -
  let ?ens = "example_ensemble BINARY [(''A'', 1)]"
  have p: "problem_type ?ens = BINARY" by (simp add: example_ensemble_def)
  have n1: "nunique [Some 0, Some (0::int)] = 1" and n2: "nunique [Some 0, Some (1::int)] = 2"
    by (simp_all add: nunique_def)
  have run: "map_sum id (\<lambda>(ens, h). component_graph ens)
         (fit_after_validation counting_env ?ens empty_heap [10, 20]
            [Some 0, Some 1] None False) =
       Inr (Some ([(StrL ''Col 1 A.x'', [0, - 1])], [Some 1, Some 0]))"
    by code_simp
  from binary_fit_class_cardinality [OF p, of "[Some 0, Some 0]" counting_env empty_heap "[10, 20]" None False]
    binary_fit_class_cardinality [OF p, of "[Some 0, Some 1]" counting_env empty_heap "[10, 20]" None False]
    n1 n2 run p
  show ?thesis by simp
qed

text \<open>
  C2. For a multiclass ensemble, \<^verbatim>\<open>fit\<close> raises the \<^verbatim>\<open>ValueError\<close> about the number
  of classes when \<open>y\<close> has 1 or 2 distinct labels, and the validation passes with 3 or
  more. With no distinct label at all (an empty series, or only missing labels) the test
  \<^verbatim>\<open>y.nunique() in [1, 2]\<close> is false as well: the validation passes and no
  class-cardinality error is raised, although the message of line 146 asks for 3 or more
  classes and the binary test of line 142 rejects such a series.
\<close>

theorem multiclass_fit_class_cardinality:
  assumes "problem_type ens = MULTICLASS"
  shows "(nunique y = 0 \<longrightarrow>
            fit env ens h X y data_splitter force_retrain =
              fit_after_validation env ens h X y data_splitter force_retrain
            \<and> \<not> (\<exists>e. fit env ens h X y data_splitter force_retrain = Inl e
                    \<and> is_class_cardinality_error e))
    \<and> (nunique y = 1 \<or> nunique y = 2 \<longrightarrow>
            fit env ens h X y data_splitter force_retrain =
              Inl (ValueError ''Multiclass pipelines require y to have 3 or more unique classes!''))
    \<and> (3 \<le> nunique y \<longrightarrow>
            fit env ens h X y data_splitter force_retrain =
              fit_after_validation env ens h X y data_splitter force_retrain)"
proof -
  have pass: "fit env ens h X y data_splitter force_retrain =
      fit_after_validation env ens h X y data_splitter force_retrain"
    if "nunique y \<noteq> 1" "nunique y \<noteq> 2"
    using that assms by (simp add: fit_def is_binary_def is_multiclass_def)
  have "\<not> is_class_cardinality_error e"
    if "nunique y = 0" "fit env ens h X y data_splitter force_retrain = Inl e" for e
  proof -
    from that pass have "fit_after_validation env ens h X y data_splitter force_retrain = Inl e"
      by simp
    then show ?thesis
      by (intro later_error_not_class_cardinality fit_after_validation_error)
  qed
  moreover have "fit env ens h X y data_splitter force_retrain =
      Inl (ValueError ''Multiclass pipelines require y to have 3 or more unique classes!'')"
    if "nunique y = 1 \<or> nunique y = 2"
    using that assms by (auto simp: fit_def is_binary_def is_multiclass_def)
  ultimately show ?thesis
    using pass by auto
qed

theorem multiclass_fit_class_cardinality_witness:
  "problem_type (example_ensemble MULTICLASS [(''A'', 1)]) = MULTICLASS
   \<and> nunique ([] :: int option list) = 0
   \<and> fit counting_env (example_ensemble MULTICLASS [(''A'', 1)]) empty_heap [] []
         (Some (\<lambda>X y. [])) False =
       Inl (Raised ''No objects to concatenate'')
   \<and> nunique [None, None, None :: int option] = 0
   \<and> map_sum id (\<lambda>(ens, h). component_graph ens)
         (fit counting_env (example_ensemble MULTICLASS [(''A'', 1)]) empty_heap [10, 20, 30]
            [None, None, None] None False) =
       Inr (Some ([(StrL ''Col 1 A.x'', [0, - 1])], [None, None]))"
proof -
  let ?ens = "example_ensemble MULTICLASS [(''A'', 1)]"
  have p: "problem_type ?ens = MULTICLASS" by (simp add: example_ensemble_def)
  have n1: "nunique ([] :: int option list) = 0"
    and n2: "nunique [None, None, None :: int option] = 0"
    by (simp_all add: nunique_def)
  have run1: "fit_after_validation counting_env ?ens empty_heap [] [] (Some (\<lambda>X y. [])) False =
       Inl (Raised ''No objects to concatenate'')"
    by (simp add: fit_after_validation_def counting_env_def example_ensemble_def
        all_input_pipelines_fitted_def cv_split_branch_def call_def)
  have run2: "map_sum id (\<lambda>(ens, h). component_graph ens)
         (fit_after_validation counting_env ?ens empty_heap [10, 20, 30]
            [None, None, None] None False) =
       Inr (Some ([(StrL ''Col 1 A.x'', [0, - 1])], [None, None]))"
    by code_simp
  from multiclass_fit_class_cardinality [OF p, of "[]" counting_env empty_heap "[]" "Some (\<lambda>X y. [])" False]
    multiclass_fit_class_cardinality [OF p, of "[None, None, None]" counting_env empty_heap "[10, 20, 30]" None False]
    n1 n2 run1 run2 p
  show ?thesis by simp
qed

text \<open>
  C8. While not all input pipelines are fitted, \<^verbatim>\<open>transform\<close> raises \<^verbatim>\<open>ValueError\<close>
  with the message \<^verbatim>\<open>Input pipelines needs to be fitted before transform\<close>, whatever
  \<open>X\<close> is. When they are all fitted this error is not raised, and a call that returns
  leaves the ensemble as it was and every object that was in the heap untouched: it only
  adds the prediction tables it works on.
\<close>

theorem transform_requires_fitted_pipelines:
  "(\<not> all_input_pipelines_fitted env ens \<longrightarrow>
      transform env ens h X =
        Inl (ValueError ''Input pipelines needs to be fitted before transform''))
   \<and> (all_input_pipelines_fitted env ens \<longrightarrow>
      transform env ens h X \<noteq>
        Inl (ValueError ''Input pipelines needs to be fitted before transform''))
   \<and> (\<forall>t ens' h'. transform env ens h X = Inr (t, ens', h') \<longrightarrow>
        ens' = ens \<and> next_addr h \<le> next_addr h'
        \<and> (\<forall>a<next_addr h. cells h' a = cells h a))"
proof (intro conjI allI impI)
  assume "\<not> all_input_pipelines_fitted env ens"
  then show "transform env ens h X =
      Inl (ValueError ''Input pipelines needs to be fitted before transform'')"
    by (simp add: transform_def)
next
  assume fitted: "all_input_pipelines_fitted env ens"
  show "transform env ens h X \<noteq>
      Inl (ValueError ''Input pipelines needs to be fitted before transform'')"
  proof
    assume "transform env ens h X =
      Inl (ValueError ''Input pipelines needs to be fitted before transform'')"
    with fitted have "is_later_error (ValueError ''Input pipelines needs to be fitted before transform'')"
      by (auto simp: transform_def split: sum.splits prod.splits
          dest: transform_loop_error call_error)
    then show False by simp
  qed
next
  fix t ens' h'
  assume run: "transform env ens h X = Inr (t, ens', h')"
  then obtain ts where loop: "transform_loop env X (input_pipelines ens) h = Inr (ts, h')"
    and same: "ens' = ens"
    by (auto simp: transform_def split: sum.splits prod.splits if_splits)
  from same show "ens' = ens" .
  from transform_loop_frame [OF loop] show "next_addr h \<le> next_addr h'"
    by simp
  fix a
  assume "a < next_addr h"
  with transform_loop_frame [OF loop] show "cells h' a = cells h a"
    by simp
qed

theorem transform_message_counterexample:
  "\<not> all_input_pipelines_fitted counting_env (example_ensemble BINARY [(''A'', 1), (''B'', 0)])
   \<and> transform counting_env (example_ensemble BINARY [(''A'', 1), (''B'', 0)]) example_heap [10, 20] =
       Inl (ValueError ''Input pipelines needs to be fitted before transform'')
   \<and> transform counting_env (example_ensemble BINARY [(''A'', 1), (''B'', 0)]) example_heap [10, 20] \<noteq>
       Inl (ValueError ''input pipelines must be fitted before transform'')"
  by (simp add: transform_def all_input_pipelines_fitted_def counting_env_def example_ensemble_def)

theorem transform_requires_fitted_pipelines_witness:
  "\<not> all_input_pipelines_fitted counting_env (example_ensemble BINARY [(''A'', 1), (''B'', 0)])
   \<and> transform counting_env (example_ensemble BINARY [(''A'', 1), (''B'', 0)]) example_heap [10, 20] =
       Inl (ValueError ''Input pipelines needs to be fitted before transform'')
   \<and> all_input_pipelines_fitted counting_env (example_ensemble BINARY [(''A'', 1), (''B'', 2)])
   \<and> (\<exists>h'. transform counting_env (example_ensemble BINARY [(''A'', 1), (''B'', 2)]) example_heap [10, 20] =
          Inr ([(StrL ''Col 1 A.x'', [0, 0]), (StrL ''Col 1 B.x'', [- 1, - 1])],
               example_ensemble BINARY [(''A'', 1), (''B'', 2)], h')
        \<and> cells h' 0 = cells example_heap 0 \<and> cells h' 1 = cells example_heap 1
        \<and> cells h' 2 = cells example_heap 2)"
proof -
  let ?e0 = "example_ensemble BINARY [(''A'', 1), (''B'', 0)]"
  let ?e1 = "example_ensemble BINARY [(''A'', 1), (''B'', 2)]"
  have u: "\<not> all_input_pipelines_fitted counting_env ?e0"
    and f: "all_input_pipelines_fitted counting_env ?e1"
    by (simp_all add: all_input_pipelines_fitted_def counting_env_def example_ensemble_def)
  have lim: "next_addr example_heap = 3" by (simp add: example_heap_def)
  have "map_sum id fst (transform counting_env ?e1 example_heap [10, 20]) =
      Inr [(StrL ''Col 1 A.x'', [0, 0]), (StrL ''Col 1 B.x'', [- 1, - 1])]"
    by code_simp
  then obtain e' h' where run: "transform counting_env ?e1 example_heap [10, 20] =
      Inr ([(StrL ''Col 1 A.x'', [0, 0]), (StrL ''Col 1 B.x'', [- 1, - 1])], e', h')"
    by (cases "transform counting_env ?e1 example_heap [10, 20]") auto
  from transform_requires_fitted_pipelines [of counting_env ?e1 example_heap "[10, 20]"] run lim
  have "e' = ?e1" and "\<forall>a<3. cells h' a = cells example_heap a"
    by simp_all
  with run have "transform counting_env ?e1 example_heap [10, 20] =
      Inr ([(StrL ''Col 1 A.x'', [0, 0]), (StrL ''Col 1 B.x'', [- 1, - 1])], ?e1, h')
      \<and> cells h' 0 = cells example_heap 0 \<and> cells h' 1 = cells example_heap 1
      \<and> cells h' 2 = cells example_heap 2"
    by simp
  with u f transform_requires_fitted_pipelines [of counting_env ?e0 example_heap "[10, 20]"]
  show ?thesis by blast
qed



section \<open>The fold loop\<close>

lemma map_eq_via:
  "map f xs = map Inr ys \<Longrightarrow> (\<And>x y. f x = Inr y \<Longrightarrow> g x = g' y) \<Longrightarrow> map g xs = map g' ys"
proof (induction xs arbitrary: ys)
  case Nil
  then show ?case by simp
next
  case (Cons x xs)
  then show ?case by (cases ys) auto
qed

lemma fit_predict_pipelines_result:
  "fit_predict_pipelines env X_train y_train X_valid pls h = Inr (pls', fold_X, h') \<Longrightarrow>
   map (\<lambda>p. call (pl_fit env p X_train y_train)) pls = map Inr pls'
   \<and> map (\<lambda>q. held_out env q X_valid) pls' = map Inr fold_X"
proof (induction pls arbitrary: h pls' fold_X h')
  case Nil
  then show ?case by simp
next
  case (Cons p ps)
  from Cons.prems obtain fitted obj a h1 t h2 rest_pls rest_X where
    fitted: "call (pl_fit env p X_train y_train) = Inr fitted"
    and pred: "call (pl_predict_proba env fitted X_valid) = Inr obj"
    and alloc: "new_object obj h = (a, h1)"
    and proc: "preds_processor h1 a (pl_name env fitted) = Inr (t, h2)"
    and loop: "fit_predict_pipelines env X_train y_train X_valid ps h2 = Inr (rest_pls, rest_X, h')"
    and res: "pls' = fitted # rest_pls" "fold_X = t # rest_X"
    by (auto split: sum.splits prod.splits)
  from new_object_frame [OF alloc] have stored: "cells h1 a = obj" by blast
  have "held_out env fitted X_valid = Inr t"
  proof (cases obj)
    case (DataFrame tb)
    with stored proc pred show ?thesis
      by (simp add: held_out_def preds_processor_DataFrame)
  next
    case NotDataFrame
    with stored proc show ?thesis
      by (simp add: preds_processor_NotDataFrame)
  qed
  with fitted res Cons.IH [OF loop] show ?case by simp
qed

lemma training_sets_Cons:
  "training_sets X y ((train, valid) # splits) =
   (rows X train, rows y train) # training_sets X y splits"
  by (simp add: training_sets_def)

lemma cv_loop_result:
  "cv_loop env X y splits pls h = Inr (final, blocks, label_blocks, h') \<Longrightarrow>
   length blocks = length splits
   \<and> label_blocks = map (\<lambda>(train, valid). rows y valid) splits
   \<and> map (\<lambda>p. refit env p (training_sets X y splits)) pls = map Inr final
   \<and> (\<forall>i<length splits. \<exists>fold_X.
         map (prediction_in_fold env X y splits i) pls = map Inr fold_X
         \<and> call (concat_columns env fold_X) = Inr (blocks ! i))"
proof (induction splits arbitrary: pls h final blocks label_blocks h')
  case Nil
  then show ?case by (auto simp: training_sets_def)
next
  case (Cons s splits)
  obtain train valid where s: "s = (train, valid)" by (cases s)
  from Cons.prems s obtain X_train X_valid y_train y_valid pls1 fold_X h1 block mX my where
    ix1: "iloc X train = Inr X_train" and ix2: "iloc X valid = Inr X_valid"
    and iy1: "iloc y train = Inr y_train" and iy2: "iloc y valid = Inr y_valid"
    and fold: "fit_predict_pipelines env X_train y_train X_valid pls h = Inr (pls1, fold_X, h1)"
    and cc: "call (concat_columns env fold_X) = Inr block"
    and rec: "cv_loop env X y splits pls1 h1 = Inr (final, mX, my, h')"
    and res: "blocks = block # mX" "label_blocks = y_valid # my"
    by (auto split: sum.splits prod.splits)
  from ix1 ix2 iy1 iy2 have rws: "X_train = rows X train" "X_valid = rows X valid"
    "y_train = rows y train" "y_valid = rows y valid"
    by (simp_all add: iloc_rows)
  from fit_predict_pipelines_result [OF fold]
  have fits: "map (\<lambda>p. call (pl_fit env p X_train y_train)) pls = map Inr pls1"
    and held: "map (\<lambda>q. held_out env q X_valid) pls1 = map Inr fold_X"
    by simp_all
  from Cons.IH [OF rec]
  have len: "length mX = length splits"
    and lbs: "my = map (\<lambda>(train, valid). rows y valid) splits"
    and fin: "map (\<lambda>p. refit env p (training_sets X y splits)) pls1 = map Inr final"
    and folds: "\<forall>i<length splits. \<exists>fold_X.
         map (prediction_in_fold env X y splits i) pls1 = map Inr fold_X
         \<and> call (concat_columns env fold_X) = Inr (mX ! i)"
    by simp_all
  have final: "map (\<lambda>p. refit env p (training_sets X y (s # splits))) pls = map Inr final"
  proof -
    have "map (\<lambda>p. refit env p (training_sets X y (s # splits))) pls =
        map (\<lambda>q. refit env q (training_sets X y splits)) pls1"
      by (rule map_eq_via [OF fits]) (simp add: s training_sets_Cons rws)
    with fin show ?thesis by simp
  qed
  have each: "\<exists>fx. map (prediction_in_fold env X y (s # splits) i) pls = map Inr fx
         \<and> call (concat_columns env fx) = Inr (blocks ! i)"
    if "i < length (s # splits)" for i
  proof (cases i)
    case 0
    have "map (prediction_in_fold env X y (s # splits) 0) pls =
        map (\<lambda>q. held_out env q X_valid) pls1"
      by (rule map_eq_via [OF fits])
         (simp add: prediction_in_fold_def s training_sets_Cons rws training_sets_def)
    with held cc res 0 show ?thesis by auto
  next
    case (Suc k)
    with that have k: "k < length splits" by simp
    have "map (prediction_in_fold env X y (s # splits) (Suc k)) pls =
        map (prediction_in_fold env X y splits k) pls1"
      by (rule map_eq_via [OF fits])
         (simp add: prediction_in_fold_def s training_sets_Cons rws cong: sum.case_cong)
    with folds k res Suc show ?thesis by auto
  qed
  from len lbs final each res rws s show ?case by auto
qed


lemma cv_split_branch_runs_cv_loop:
  "cv_split_branch env ens h X y data_splitter = Inr (metalearner_X, metalearner_y, h') \<Longrightarrow>
   \<exists>final blocks label_blocks.
     cv_loop env X y
       ((case data_splitter of None \<Rightarrow> make_data_splitter env X y BINARY | Some given \<Rightarrow> given) X y)
       (map (pl_clone env) (input_pipelines ens)) h = Inr (final, blocks, label_blocks, h')
     \<and> call (pd_concat env blocks) = Inr metalearner_X
     \<and> call (pd_concat_series env label_blocks) = Inr metalearner_y"
  by (auto simp: cv_split_branch_def Let_def split: sum.splits prod.splits)

text \<open>
  C4. In the branch of \<^verbatim>\<open>fit\<close> that splits the data itself, every input pipeline is
  cloned once, before the loop over the folds (lines 184 to 186), and the fold loop works
  on these clones throughout. When the loop returns: there is one block of predictions
  and one block of labels (the validation rows of \<open>y\<close>) per fold; the block of fold
  \<open>i\<close> is the column-wise concatenation, over the input pipelines, of the reshaped
  probabilities predicted on the validation rows of fold \<open>i\<close> by the clone after it has
  been fitted on the training rows of the folds \<open>0, \<dots>, i\<close> one after the other; and at
  the end each clone has been fitted on the training rows of every fold in turn.
\<close>

theorem clones_are_refitted_in_every_fold:
  assumes "cv_loop env X y splits (map (pl_clone env) pipelines) h =
    Inr (final, blocks, label_blocks, h')"
  shows "length blocks = length splits
    \<and> label_blocks = map (\<lambda>(train, valid). rows y valid) splits
    \<and> map (\<lambda>p. refit env (pl_clone env p) (training_sets X y splits)) pipelines = map Inr final
    \<and> (\<forall>i<length splits. \<exists>fold_X.
          map (\<lambda>p. prediction_in_fold env X y splits i (pl_clone env p)) pipelines =
            map Inr fold_X
          \<and> call (concat_columns env fold_X) = Inr (blocks ! i))"
  using cv_loop_result [OF assms] by (simp add: comp_def)

theorem fresh_clones_counterexample:
  "map_sum id (\<lambda>(final, blocks, label_blocks, h). (final, blocks))
     (cv_loop counting_env [10, 20, 30, 40] [Some 0, Some 1, Some 0, Some 1]
        [([0, 1], [2, 3]), ([2, 3], [0, 1])]
        (map (pl_clone counting_env) [(''A'', 0)]) empty_heap) =
   Inr ([(''A'', 2)], [[(StrL ''Col 1 A.x'', [0, 0])], [(StrL ''Col 1 A.x'', [- 1, - 1])]])
   \<and> map_sum id fst
     (cv_loop_fresh_clones counting_env [10, 20, 30, 40] [Some 0, Some 1, Some 0, Some 1]
        [([0, 1], [2, 3]), ([2, 3], [0, 1])] [(''A'', 0)] empty_heap) =
   Inr [[(StrL ''Col 1 A.x'', [0, 0])], [(StrL ''Col 1 A.x'', [0, 0])]]"
  by code_simp

theorem clones_are_refitted_in_every_fold_witness:
  "(\<exists>h'. cv_loop counting_env [10, 20, 30, 40] [Some 0, Some 1, Some 0, Some 1]
        [([0, 1], [2, 3]), ([2, 3], [0, 1])]
        (map (pl_clone counting_env) [(''A'', 5)]) empty_heap =
      Inr ([(''A'', 2)],
           [[(StrL ''Col 1 A.x'', [0, 0])], [(StrL ''Col 1 A.x'', [- 1, - 1])]],
           [[Some 0, Some 1], [Some 0, Some 1]], h'))
   \<and> refit counting_env (pl_clone counting_env (''A'', 5))
       (training_sets [10, 20, 30, 40] [Some 0, Some 1, Some 0, Some 1]
          [([0, 1], [2, 3]), ([2, 3], [0, 1])]) = Inr (''A'', 2)
   \<and> prediction_in_fold counting_env [10, 20, 30, 40] [Some 0, Some 1, Some 0, Some 1]
       [([0, 1], [2, 3]), ([2, 3], [0, 1])] 1 (pl_clone counting_env (''A'', 5)) =
     Inr [(StrL ''Col 1 A.x'', [- 1, - 1])]"
proof -
  let ?X = "[10, 20, 30, 40 :: int]"
  let ?y = "[Some 0, Some 1, Some 0, Some (1 :: int)]"
  let ?splits = "[([0, 1], [2, 3]), ([2, 3], [0, 1])] :: (nat list \<times> nat list) list"
  let ?run = "cv_loop counting_env ?X ?y ?splits (map (pl_clone counting_env) [(''A'', 5)]) empty_heap"
  let ?blocks = "[[(StrL ''Col 1 A.x'', [0, 0 :: int])], [(StrL ''Col 1 A.x'', [- 1, - 1])]]"
  have "map_sum id (\<lambda>(final, blocks, label_blocks, h). (final, blocks, label_blocks)) ?run =
      Inr ([(''A'', 2)], ?blocks, [[Some 0, Some 1], [Some 0, Some 1]])"
    by code_simp
  then obtain h' where run: "?run =
      Inr ([(''A'', 2)], ?blocks, [[Some 0, Some 1], [Some 0, Some 1]], h')"
    by (cases ?run) auto
  from clones_are_refitted_in_every_fold [OF run]
  have final: "map (\<lambda>p. refit counting_env (pl_clone counting_env p) (training_sets ?X ?y ?splits))
        [(''A'', 5)] = map Inr [(''A'', 2)]"
    and folds: "\<forall>i<length ?splits. \<exists>fold_X.
        map (\<lambda>p. prediction_in_fold counting_env ?X ?y ?splits i (pl_clone counting_env p))
          [(''A'', 5)] = map Inr fold_X
        \<and> call (concat_columns counting_env fold_X) = Inr (?blocks ! i)"
    by blast+
  from folds obtain fold_X where
    preds: "map (\<lambda>p. prediction_in_fold counting_env ?X ?y ?splits 1 (pl_clone counting_env p))
          [(''A'', 5)] = map Inr fold_X"
    and cc: "call (concat_columns counting_env fold_X) = Inr (?blocks ! 1)"
    by force
  from preds obtain t where t: "fold_X = [t]"
    and p: "prediction_in_fold counting_env ?X ?y ?splits 1 (pl_clone counting_env (''A'', 5)) = Inr t"
    by (cases fold_X) auto
  from cc t have "t = [(StrL ''Col 1 A.x'', [- 1, - 1])]"
    by (simp add: call_def counting_env_def)
  with p final run show ?thesis by auto
qed


text \<open>
  When fitting a pipeline again discards what earlier fits left (the outcome of a fit
  does not depend on the fits before it), the loop over the once-made clones computes
  exactly what fresh clones in every fold would.
\<close>


lemma fit_predict_pipelines_same_fits:
  "list_all2 (\<lambda>p c. \<forall>Xb yb. pl_fit env p Xb yb = pl_fit env c Xb yb) pls cs \<Longrightarrow>
   fit_predict_pipelines env X_train y_train X_valid pls h =
   fit_predict_pipelines env X_train y_train X_valid cs h"
proof (induction pls cs arbitrary: h rule: list_all2_induct)
  case Nil
  show ?case by simp
next
  case (Cons p ps c cs)
  from Cons.hyps(1) have "pl_fit env p X_train y_train = pl_fit env c X_train y_train"
    by simp
  with Cons.IH show ?case
    by (simp cong: sum.case_cong prod.case_cong)
qed

lemma fresh_clones_agree_when_fit_resets:
  assumes reset: "\<And>p Xa ya q Xb yb.
    pl_fit env p Xa ya = Inr q \<Longrightarrow> pl_fit env q Xb yb = pl_fit env p Xb yb"
  shows "list_all2 (\<lambda>p c. \<forall>Xb yb. pl_fit env p Xb yb = pl_fit env c Xb yb) pls
      (map (pl_clone env) pipelines) \<Longrightarrow>
    map_sum id snd (cv_loop env X y splits pls h) =
    cv_loop_fresh_clones env X y splits pipelines h"
proof (induction splits arbitrary: pls h)
  case Nil
  show ?case by simp
next
  case (Cons s splits)
  obtain train valid where s: "s = (train, valid)" by (cases s)
  let ?clones = "map (pl_clone env) pipelines"
  have same: "fit_predict_pipelines env Xt yt Xv pls h = fit_predict_pipelines env Xt yt Xv ?clones h"
    for Xt yt Xv
    by (rule fit_predict_pipelines_same_fits [OF Cons.prems])
  have step: "map_sum id snd (cv_loop env X y splits pls1 h1) =
      cv_loop_fresh_clones env X y splits pipelines h1"
    if "fit_predict_pipelines env Xt yt Xv pls h = Inr (pls1, fold_X, h1)"
    for Xt yt Xv pls1 fold_X h1
  proof (rule Cons.IH)
    from fit_predict_pipelines_result [OF that]
    have fits: "map (\<lambda>p. call (pl_fit env p Xt yt)) pls = map Inr pls1" by simp
    then have len: "length pls1 = length pls"
      by (metis length_map)
    have "\<forall>Xb yb. pl_fit env (pls1 ! j) Xb yb = pl_fit env (?clones ! j) Xb yb"
      if j: "j < length pls" for j
    proof -
      from fits j len have "call (pl_fit env (pls ! j) Xt yt) = Inr (pls1 ! j)"
        by (metis nth_map)
      then have "pl_fit env (pls ! j) Xt yt = Inr (pls1 ! j)"
        by (auto simp: call_def split: sum.splits)
      then have "pl_fit env (pls1 ! j) Xb yb = pl_fit env (pls ! j) Xb yb" for Xb yb
        by (rule reset)
      moreover from Cons.prems j
      have "pl_fit env (pls ! j) Xb yb = pl_fit env (?clones ! j) Xb yb" for Xb yb
        by (auto simp: list_all2_conv_all_nth)
      ultimately show ?thesis by simp
    qed
    with len Cons.prems
    show "list_all2 (\<lambda>p c. \<forall>Xb yb. pl_fit env p Xb yb = pl_fit env c Xb yb) pls1 ?clones"
      by (auto simp: list_all2_conv_all_nth)
  qed
  show ?case
    unfolding s cv_loop.simps cv_loop_fresh_clones.simps same
    by (auto split: sum.splits prod.splits dest!: step [unfolded same])
qed

lemma fresh_clones_agree:
  assumes "\<And>p Xa ya q Xb yb.
    pl_fit env p Xa ya = Inr q \<Longrightarrow> pl_fit env q Xb yb = pl_fit env p Xb yb"
  shows "map_sum id snd (cv_loop env X y splits (map (pl_clone env) pipelines) h) =
    cv_loop_fresh_clones env X y splits pipelines h"
  by (rule fresh_clones_agree_when_fit_resets [OF assms])
     (simp_all add: list_all2_conv_all_nth)

end
